theory Spec2Isabelle
  imports Complex_Main "HOL-Library.Log_Nat"
begin

section \<open>Go's float64: IEEE 754 binary64 with round-to-nearest-even\<close>

text \<open>
  The statistics of \<^verbatim>\<open>worker\<close> are computed on Go \<^verbatim>\<open>float64\<close> values, so the
  arithmetic is modelled bit-exactly. A finite non-zero value is \<open>Fin m e\<close>, denoting
  \<open>m * 2 ^ e\<close> with \<open>m\<close> odd (the representation is then unique); \<open>Fin 0 0\<close> is \<open>+0\<close>,
  \<open>NZero\<close> is \<open>-0\<close>. Every operation computes the exact result and rounds it once.
\<close>

datatype float64 = NaN | PInf | NInf | NZero | Fin int int

definition PZero :: float64 where
  "PZero = Fin 0 0"

text \<open>The canonical form of \<open>m * 2 ^ e\<close>: trailing zero bits of \<open>m\<close> move into \<open>e\<close>.\<close>

function canon :: "int \<Rightarrow> int \<Rightarrow> float64" where
  "canon m e = (if m = 0 then Fin 0 0 else if even m then canon (m div 2) (e + 1) else Fin m e)"
  by pat_completeness auto
termination
  by (relation "measure (\<lambda>(m, e). nat \<bar>m\<bar>)") auto

declare canon.simps [simp del]

definition shl :: "int \<Rightarrow> int \<Rightarrow> int" where
  \<comment> \<open>\<open>a * 2 ^ k\<close> for \<open>k \<ge> 0\<close>, \<open>a\<close> itself otherwise\<close>
  "shl a k = (if 0 \<le> k then a * 2 ^ nat k else a)"

definition rne_div :: "int \<Rightarrow> int \<Rightarrow> int" where
  \<comment> \<open>the integer nearest to \<open>a / b\<close> (\<open>b > 0\<close>), ties to the even one\<close>
  "rne_div a b = (let q = a div b; r = a mod b in
     if 2 * r < b then q else if b < 2 * r then q + 1
     else if even q then q else q + 1)"

definition binade :: "int \<Rightarrow> int \<Rightarrow> int" where
  \<comment> \<open>\<open>\<lfloor>log\<^sub>2 (\<bar>a\<bar> / b)\<rfloor>\<close> for \<open>a \<noteq> 0\<close>, \<open>b > 0\<close>\<close>
  "binade a b = (let d = bitlen \<bar>a\<bar> - bitlen b in
     if shl b d \<le> shl \<bar>a\<bar> (- d) then d else d - 1)"

text \<open>
  \<open>round_frac a b e\<close> rounds the exact value \<open>a / b * 2 ^ e\<close> (\<open>b > 0\<close>) to binary64:
  53 significant bits, least exponent \<open>-1074\<close> (gradual underflow), overflow to an
  infinity from \<open>2 ^ 1024 - 2 ^ 970\<close> on.
\<close>

definition round_frac :: "int \<Rightarrow> int \<Rightarrow> int \<Rightarrow> float64" where
  "round_frac a b e =
     (if a = 0 then PZero else
      let t = max (binade a b + e - 52) (- 1074);
          n = rne_div (shl a (e - t)) (shl b (t - e))
      in if n = 0 then (if a < 0 then NZero else PZero)
         else if 1024 < bitlen \<bar>n\<bar> + t then (if a < 0 then NInf else PInf)
         else canon n t)"

definition float64_of_int :: "int \<Rightarrow> float64" where
  \<comment> \<open>the conversion \<^verbatim>\<open>float64(n)\<close>\<close>
  "float64_of_int n = round_frac n 1 0"

fun fneg :: "float64 \<Rightarrow> float64" where
  "fneg NaN = NaN"
| "fneg PInf = NInf"
| "fneg NInf = PInf"
| "fneg NZero = PZero"
| "fneg (Fin m e) = (if m = 0 then NZero else Fin (- m) e)"

fun fadd :: "float64 \<Rightarrow> float64 \<Rightarrow> float64" where
  "fadd NaN y = NaN"
| "fadd x NaN = NaN"
| "fadd PInf NInf = NaN"
| "fadd NInf PInf = NaN"
| "fadd PInf y = PInf"
| "fadd NInf y = NInf"
| "fadd x PInf = PInf"
| "fadd x NInf = NInf"
| "fadd NZero y = y"
| "fadd x NZero = x"
| "fadd (Fin m1 e1) (Fin m2 e2) =
     (let e = min e1 e2 in round_frac (shl m1 (e1 - e) + shl m2 (e2 - e)) 1 e)"

definition fsub :: "float64 \<Rightarrow> float64 \<Rightarrow> float64" where
  "fsub x y = fadd x (fneg y)"

fun fsgn :: "float64 \<Rightarrow> bool" where
  "fsgn NInf = True"
| "fsgn NZero = True"
| "fsgn (Fin m e) = (m < 0)"
| "fsgn x = False"

fun is_zero :: "float64 \<Rightarrow> bool" where
  "is_zero NZero = True"
| "is_zero (Fin m e) = (m = 0)"
| "is_zero x = False"

fun is_inf :: "float64 \<Rightarrow> bool" where
  "is_inf PInf = True"
| "is_inf NInf = True"
| "is_inf x = False"

fun is_finite :: "float64 \<Rightarrow> bool" where
  "is_finite NZero = True"
| "is_finite (Fin m e) = True"
| "is_finite x = False"

definition signed :: "bool \<Rightarrow> float64 \<Rightarrow> float64" where
  "signed s x = (if s then fneg x else x)"

fun mant :: "float64 \<Rightarrow> int" where
  "mant (Fin m e) = m"
| "mant x = 0"

fun expo :: "float64 \<Rightarrow> int" where
  "expo (Fin m e) = e"
| "expo x = 0"

definition fmul :: "float64 \<Rightarrow> float64 \<Rightarrow> float64" where
  "fmul x y =
     (if x = NaN \<or> y = NaN then NaN
      else if is_inf x \<or> is_inf y then
        (if is_zero x \<or> is_zero y then NaN else signed (fsgn x \<noteq> fsgn y) PInf)
      else if is_zero x \<or> is_zero y then signed (fsgn x \<noteq> fsgn y) PZero
      else round_frac (mant x * mant y) 1 (expo x + expo y))"

definition fdiv :: "float64 \<Rightarrow> float64 \<Rightarrow> float64" where
  "fdiv x y =
     (if x = NaN \<or> y = NaN then NaN
      else if is_inf x then (if is_inf y then NaN else signed (fsgn x \<noteq> fsgn y) PInf)
      else if is_inf y then signed (fsgn x \<noteq> fsgn y) PZero
      else if is_zero y then (if is_zero x then NaN else signed (fsgn x \<noteq> fsgn y) PInf)
      else if is_zero x then signed (fsgn x \<noteq> fsgn y) PZero
      else round_frac (if mant y < 0 then - mant x else mant x) \<bar>mant y\<bar> (expo x - expo y))"

text \<open>\<open>isqrt n\<close> is \<open>\<lfloor>\<surd>n\<rfloor>\<close>, found bit by bit from the top.\<close>

fun isqrt_aux :: "nat \<Rightarrow> int \<Rightarrow> int \<Rightarrow> int" where
  "isqrt_aux k n r =
     (if k = 0 then r
      else let c = r + 2 ^ (k - 1) in isqrt_aux (k - 1) n (if c * c \<le> n then c else r))"

declare isqrt_aux.simps [simp del]

definition isqrt :: "int \<Rightarrow> int" where
  "isqrt n = isqrt_aux (nat (bitlen n)) n 0"

text \<open>
  \<^verbatim>\<open>math.Sqrt\<close> is correctly rounded. For \<open>m * 2 ^ e\<close> with \<open>m > 0\<close> the root is scaled
  to an integer \<open>X\<close> with \<open>\<surd>X\<close> in \<open>[2 ^ 52, 2 ^ 53)\<close>; \<open>\<surd>X\<close> is nearer to \<open>r + 1\<close> than to
  \<open>r = \<lfloor>\<surd>X\<rfloor>\<close> exactly when \<open>X > r * r + r\<close>.
\<close>

definition sqrt_fin :: "int \<Rightarrow> int \<Rightarrow> float64" where
  "sqrt_fin m e =
     (let m' = (if even e then m else 2 * m);
          e' = (if even e then e else e - 1);
          t = (bitlen m' - 1 + e') div 2 - 52;
          X = shl m' (e' - 2 * t);
          r = isqrt X
      in canon (if r < X - r * r then r + 1 else r) t)"

fun fsqrt :: "float64 \<Rightarrow> float64" where
  "fsqrt NaN = NaN"
| "fsqrt PInf = PInf"
| "fsqrt NInf = NaN"
| "fsqrt NZero = NZero"
| "fsqrt (Fin m e) = (if m < 0 then NaN else if m = 0 then Fin m e else sqrt_fin m e)"

fun fabs :: "float64 \<Rightarrow> float64" where
  \<comment> \<open>\<^verbatim>\<open>math.Abs\<close>\<close>
  "fabs NaN = NaN"
| "fabs PInf = PInf"
| "fabs NInf = PInf"
| "fabs NZero = PZero"
| "fabs (Fin m e) = Fin \<bar>m\<bar> e"

fun fgt :: "float64 \<Rightarrow> float64 \<Rightarrow> bool" where
  \<comment> \<open>Go's \<^verbatim>\<open>x > y\<close>: false whenever an operand is NaN; the two zeros are equal\<close>
  "fgt NaN y = False"
| "fgt x NaN = False"
| "fgt x PInf = False"
| "fgt NInf y = False"
| "fgt PInf y = True"
| "fgt x NInf = True"
| "fgt NZero NZero = False"
| "fgt NZero (Fin m e) = (m < 0)"
| "fgt (Fin m e) NZero = (0 < m)"
| "fgt (Fin m1 e1) (Fin m2 e2) =
     (let e = min e1 e2 in shl m2 (e2 - e) < shl m1 (e1 - e))"

definition pow2 :: "int \<Rightarrow> rat" where
  "pow2 e = (if 0 \<le> e then 2 ^ nat e else 1 / 2 ^ nat (- e))"

fun valof :: "float64 \<Rightarrow> rat" where
  \<comment> \<open>the rational a finite value denotes (0 for the others)\<close>
  "valof (Fin m e) = of_int m * pow2 e"
| "valof x = 0"

text \<open>
  The representations that stand for a binary64 value. The operations above are meant
  for, and return, such values only.
\<close>

fun is_f64 :: "float64 \<Rightarrow> bool" where
  "is_f64 (Fin m e) =
     (if m = 0 then e = 0
      else odd m \<and> bitlen \<bar>m\<bar> \<le> 53 \<and> - 1074 \<le> e \<and> bitlen \<bar>m\<bar> + e \<le> 1024)"
| "is_f64 x = True"


section \<open>Data model (main.go, lines 18-44)\<close>

record Metric =
  Timestamp :: int
  CPU :: float64
  RPS :: float64

record Analysis =
  Count :: int
  WindowSize :: int
  RollingAvg :: float64
  StdDev :: float64
  ZScore :: float64
  IsAnomaly :: bool
  LastRPS :: float64
  LastCPU :: float64
  LastTs :: int
  ThresholdZ :: float64
  ComputedAt :: int

definition windowSize :: int where
  "windowSize = 50"

definition zThreshold :: float64 where
  \<comment> \<open>the constant 2.0\<close>
  "zThreshold = Fin 1 1"

definition redisWindowKey :: string where
  "redisWindowKey = ''rps_window''"

definition redisLastKey :: string where
  "redisLastKey = ''last_analysis''"


section \<open>The statistics of one worker iteration (main.go, lines 111-154)\<close>

text \<open>
  \<^verbatim>\<open>strconv.ParseFloat\<close> is a parameter \<open>P\<close> of the model: \<open>P v = None\<close> stands for
  \<^verbatim>\<open>convErr != nil\<close>. The first loop (lines 111-120) appends each parsed value to
  \<^verbatim>\<open>nums\<close> and adds it to \<^verbatim>\<open>sum\<close> (here \<open>acc\<close>), skipping the entries that do not
  parse.
\<close>

fun parse_loop ::
  "(string \<Rightarrow> float64 option) \<Rightarrow> string list \<Rightarrow> float64 list \<Rightarrow> float64 \<Rightarrow> float64 list \<times> float64"
where
  "parse_loop P [] nums acc = (nums, acc)"
| "parse_loop P (v # vs) nums acc =
     (case P v of
        None \<Rightarrow> parse_loop P vs nums acc
      | Some f \<Rightarrow> parse_loop P vs (nums @ [f]) (fadd acc f))"

text \<open>The second loop (lines 128-131) accumulates the squared deviations.\<close>

fun variance_loop :: "float64 list \<Rightarrow> float64 \<Rightarrow> float64 \<Rightarrow> float64" where
  "variance_loop [] mean variance = variance"
| "variance_loop (x # xs) mean variance =
     (let d = fsub x mean in variance_loop xs mean (fadd variance (fmul d d)))"

definition mean_stddev :: "float64 list \<Rightarrow> float64 \<Rightarrow> float64 \<times> float64" where
  \<comment> \<open>lines 122-134\<close>
  "mean_stddev nums acc =
     (let count = int (length nums) in
      if 0 < count then
        let mean = fdiv acc (float64_of_int count);
            variance = variance_loop nums mean PZero;
            variance' = fdiv variance (float64_of_int count)
        in (mean, fsqrt variance')
      else (PZero, PZero))"

definition zscore :: "int \<Rightarrow> float64 \<Rightarrow> float64 \<Rightarrow> float64 \<Rightarrow> float64" where
  \<comment> \<open>lines 136-139\<close>
  "zscore count rps mean stddev =
     (if 1 < count \<and> fgt stddev PZero then fdiv (fsub rps mean) stddev else PZero)"

definition compute ::
  "(string \<Rightarrow> float64 option) \<Rightarrow> string list \<Rightarrow> Metric \<Rightarrow> int \<Rightarrow> Analysis"
where
  \<comment> \<open>lines 111-154; \<open>now\<close> is \<^verbatim>\<open>time.Now().Unix()\<close>\<close>
  "compute P values m now =
     (case parse_loop P values [] PZero of (nums, acc) \<Rightarrow>
      case mean_stddev nums acc of (mean, stddev) \<Rightarrow>
      let count = int (length nums);
          z = zscore count (RPS m) mean stddev;
          isAnomaly = fgt (fabs z) zThreshold
      in \<lparr>Count = count, WindowSize = windowSize, RollingAvg = mean, StdDev = stddev,
          ZScore = z, IsAnomaly = isAnomaly, LastRPS = RPS m, LastCPU = CPU m,
          LastTs = Timestamp m, ThresholdZ = zThreshold, ComputedAt = now\<rparr>)"

text \<open>
  The formulas of the specification, for comparison with the loops: the mean is the
  sum over the count, the population standard deviation is the root of the summed
  squared deviations over the count (not the count less one), all in float64
  arithmetic, summing from the left.
\<close>

definition fsum :: "float64 list \<Rightarrow> float64" where
  "fsum xs = foldl fadd PZero xs"



text \<open>
  An instance of \<^verbatim>\<open>strconv.ParseFloat\<close> for the examples: plain decimal numerals (a
  sign, digits, at most one point), correctly rounded, with a range error for a result
  that overflows. Every other string is rejected here.
\<close>

fun parse_digits :: "string \<Rightarrow> int \<Rightarrow> int option" where
  "parse_digits [] acc = Some acc"
| "parse_digits (c # cs) acc =
     (let n = (of_char c :: nat) in
      if 48 \<le> n \<and> n \<le> 57 then parse_digits cs (10 * acc + (int n - 48)) else None)"

definition ParseFloat_plain :: "string \<Rightarrow> float64 option" where
  "ParseFloat_plain s =
     (let neg = (s \<noteq> [] \<and> hd s = CHR ''-'');
          ds = (if s \<noteq> [] \<and> (hd s = CHR ''-'' \<or> hd s = CHR ''+'') then tl s else s);
          ip = takeWhile (\<lambda>c. c \<noteq> CHR ''.'') ds;
          fp = drop (length ip + 1) ds
      in if ip @ fp = [] then None
         else case parse_digits (ip @ fp) 0 of
                None \<Rightarrow> None
              | Some n \<Rightarrow>
                  (let r = round_frac (if neg then - n else n) (10 ^ length fp) 0
                   in if is_inf r then None
                      else if n = 0 \<and> neg then Some NZero else Some r))"




section \<open>The external store (go-redis client)\<close>

text \<open>
  Redis itself is not part of the repository. The five commands the service issues are
  modelled after the Redis command reference: a key holds a string or a list; a list
  range is inclusive, negative indices count from the tail, and out-of-range indices
  are clamped. A command can also fail in transport: \<open>issued\<close> counts the commands the
  client has sent, and \<open>faults k = Some e\<close> says that the command sent as number \<open>k\<close>
  returns the error \<open>e\<close> and has no effect.
\<close>

datatype rval = RString string | RList "string list"

datatype redis_error = redis_Nil | RedisError string

record rdb =
  store :: "string \<rightharpoonup> rval"
  faults :: "nat \<Rightarrow> string option"
  issued :: nat

fun Error :: "redis_error \<Rightarrow> string" where
  \<comment> \<open>\<^verbatim>\<open>err.Error()\<close>\<close>
  "Error redis_Nil = ''redis: nil''"
| "Error (RedisError e) = e"

definition WRONGTYPE :: redis_error where
  "WRONGTYPE = RedisError ''WRONGTYPE Operation against a key holding the wrong kind of value''"

definition next_fault :: "rdb \<Rightarrow> string option \<times> rdb" where
  "next_fault c = (faults c (issued c), c\<lparr>issued := issued c + 1\<rparr>)"

definition lrange :: "string list \<Rightarrow> int \<Rightarrow> int \<Rightarrow> string list" where
  "lrange xs start stop =
     (let llen = int (length xs);
          start1 = (if start < 0 then llen + start else start);
          stop1 = (if stop < 0 then llen + stop else stop);
          start2 = (if start1 < 0 then 0 else start1)
      in if stop1 < start2 \<or> llen \<le> start2 then []
         else let stop2 = (if llen \<le> stop1 then llen - 1 else stop1)
              in take (nat (stop2 - start2 + 1)) (drop (nat start2) xs))"

definition LPush :: "rdb \<Rightarrow> string \<Rightarrow> string \<Rightarrow> (redis_error + int) \<times> rdb" where
  "LPush c key v =
     (case next_fault c of
        (Some e, c') \<Rightarrow> (Inl (RedisError e), c')
      | (None, c') \<Rightarrow>
          (case store c' key of
             None \<Rightarrow> (Inr 1, c'\<lparr>store := (store c')(key \<mapsto> RList [v])\<rparr>)
           | Some (RList xs) \<Rightarrow>
               (Inr (int (length xs) + 1), c'\<lparr>store := (store c')(key \<mapsto> RList (v # xs))\<rparr>)
           | Some (RString x) \<Rightarrow> (Inl WRONGTYPE, c')))"

definition LTrim :: "rdb \<Rightarrow> string \<Rightarrow> int \<Rightarrow> int \<Rightarrow> (redis_error + unit) \<times> rdb" where
  "LTrim c key start stop =
     (case next_fault c of
        (Some e, c') \<Rightarrow> (Inl (RedisError e), c')
      | (None, c') \<Rightarrow>
          (case store c' key of
             None \<Rightarrow> (Inr (), c')
           | Some (RList xs) \<Rightarrow>
               (let ys = lrange xs start stop
                in (Inr (), c'\<lparr>store := (if ys = [] then (store c')(key := None)
                                          else (store c')(key \<mapsto> RList ys))\<rparr>))
           | Some (RString x) \<Rightarrow> (Inl WRONGTYPE, c')))"

definition LRange :: "rdb \<Rightarrow> string \<Rightarrow> int \<Rightarrow> int \<Rightarrow> (redis_error + string list) \<times> rdb" where
  "LRange c key start stop =
     (case next_fault c of
        (Some e, c') \<Rightarrow> (Inl (RedisError e), c')
      | (None, c') \<Rightarrow>
          (case store c' key of
             None \<Rightarrow> (Inr [], c')
           | Some (RList xs) \<Rightarrow> (Inr (lrange xs start stop), c')
           | Some (RString x) \<Rightarrow> (Inl WRONGTYPE, c')))"

definition Set :: "rdb \<Rightarrow> string \<Rightarrow> string \<Rightarrow> (redis_error + unit) \<times> rdb" where
  \<comment> \<open>\<^verbatim>\<open>SET key value\<close> with expiration 0: overwrites whatever the key held\<close>
  "Set c key v =
     (case next_fault c of
        (Some e, c') \<Rightarrow> (Inl (RedisError e), c')
      | (None, c') \<Rightarrow> (Inr (), c'\<lparr>store := (store c')(key \<mapsto> RString v)\<rparr>))"

definition Get :: "rdb \<Rightarrow> string \<Rightarrow> (redis_error + string) \<times> rdb" where
  \<comment> \<open>a missing key is reported as the error \<^verbatim>\<open>redis.Nil\<close> (here \<open>redis_Nil\<close>)\<close>
  "Get c key =
     (case next_fault c of
        (Some e, c') \<Rightarrow> (Inl (RedisError e), c')
      | (None, c') \<Rightarrow>
          (case store c' key of
             None \<Rightarrow> (Inl redis_Nil, c')
           | Some (RString v) \<Rightarrow> (Inr v, c')
           | Some (RList xs) \<Rightarrow> (Inl WRONGTYPE, c')))"


section \<open>Service state (main.go, lines 46-86)\<close>

text \<open>
  Library functions whose results the service only passes on are parameters:
  \<open>ParseFloat\<close> is \<^verbatim>\<open>strconv.ParseFloat(v, 64)\<close> (\<open>None\<close> for an error), \<open>FormatFloat\<close> the
  encoding go-redis gives a \<^verbatim>\<open>float64\<close> argument, \<open>Marshal\<close> is \<^verbatim>\<open>json.Marshal\<close>
  (\<open>None\<close> for an error), \<open>ErrorText\<close> the text of the error \<^verbatim>\<open>Decode\<close> returns.
\<close>

datatype json =
  JNull | JBool bool | JNumber string | JString string
  | JArray "json list" | JObject "(string \<times> json) list"

record golib =
  ParseFloat :: "string \<Rightarrow> float64 option"
  FormatFloat :: "float64 \<Rightarrow> string"
  Marshal :: "Analysis \<Rightarrow> string option"
  ErrorText :: "json option \<Rightarrow> string"

record chan =
  buf :: "Metric list"
  cap :: nat

text \<open>
  The \<^verbatim>\<open>Service\<close> struct together with the package-level metrics and the log output.
  A counter is its count; the latency histogram is the number of its observations.
\<close>

record service =
  metricsCh :: chan
  rdb :: rdb
  logs :: "string list"
  ingestTotal :: nat
  ingestLatency :: nat
  currentRollingAvg :: float64
  anomalyTotal :: nat
  anomalyRate :: float64

definition NewService :: "rdb \<Rightarrow> service" where
  "NewService c =
     \<lparr>metricsCh = \<lparr>buf = [], cap = 10000\<rparr>, rdb = c, logs = [], ingestTotal = 0,
      ingestLatency = 0, currentRollingAvg = PZero, anomalyTotal = 0, anomalyRate = PZero\<rparr>"


section \<open>The worker (main.go, lines 94-169)\<close>

function itoa_pos :: "int \<Rightarrow> string" where
  \<comment> \<open>the decimal digits of \<open>n \<ge> 0\<close>\<close>
  "itoa_pos n =
     (if n < 10 then [char_of (48 + n)] else itoa_pos (n div 10) @ [char_of (48 + n mod 10)])"
  by pat_completeness auto
termination
  by (relation "measure nat") auto

declare itoa_pos.simps [simp del]

definition Itoa :: "int \<Rightarrow> string" where
  \<comment> \<open>the verb \<^verbatim>\<open>%d\<close>\<close>
  "Itoa n = (if n < 0 then CHR ''-'' # itoa_pos (- n) else itoa_pos n)"

definition logline :: "int \<Rightarrow> string \<Rightarrow> redis_error \<Rightarrow> string" where
  \<comment> \<open>\<^verbatim>\<open>log.Printf("[worker %d] redis ... error: %v", id, err)\<close>\<close>
  "logline wid what err = ''[worker '' @ Itoa wid @ ''] '' @ what @ '' error: '' @ Error err"

definition persist_and_observe :: "golib \<Rightarrow> int \<Rightarrow> Analysis \<Rightarrow> rdb \<Rightarrow> service \<Rightarrow> service" where
  \<comment> \<open>lines 156-167: the error of \<^verbatim>\<open>Set\<close> is logged and the gauges are updated all the same\<close>
  "persist_and_observe L wid anal c s =
     (let b = (case Marshal L anal of Some bs \<Rightarrow> bs | None \<Rightarrow> []) in
      case Set c redisLastKey b of (res, c') \<Rightarrow>
        s\<lparr>rdb := c',
          logs := (case res of
                     Inl err \<Rightarrow> logs s @ [logline wid ''redis SET last_analysis'' err]
                   | Inr u \<Rightarrow> logs s),
          currentRollingAvg := RollingAvg anal,
          anomalyTotal := (if IsAnomaly anal then anomalyTotal s + 1 else anomalyTotal s),
          anomalyRate := (if IsAnomaly anal then Fin 1 0 else PZero)\<rparr>)"

definition worker_iter :: "golib \<Rightarrow> int \<Rightarrow> int \<Rightarrow> Metric \<Rightarrow> service \<Rightarrow> service" where
  \<comment> \<open>one pass of the loop body for the received sample \<open>m\<close>; \<open>now\<close> is \<^verbatim>\<open>time.Now().Unix()\<close>\<close>
  "worker_iter L wid now m s =
     (case LPush (rdb s) redisWindowKey (FormatFloat L (RPS m)) of
        (Inl err, c1) \<Rightarrow> s\<lparr>rdb := c1, logs := logs s @ [logline wid ''redis LPUSH'' err]\<rparr>
      | (Inr n, c1) \<Rightarrow>
     (case LTrim c1 redisWindowKey 0 (windowSize - 1) of
        (Inl err, c2) \<Rightarrow> s\<lparr>rdb := c2, logs := logs s @ [logline wid ''redis LTRIM'' err]\<rparr>
      | (Inr u, c2) \<Rightarrow>
     (case LRange c2 redisWindowKey 0 (windowSize - 1) of
        (Inl err, c3) \<Rightarrow> s\<lparr>rdb := c3, logs := logs s @ [logline wid ''redis LRANGE'' err]\<rparr>
      | (Inr values, c3) \<Rightarrow>
          persist_and_observe L wid (compute (ParseFloat L) values m now) c3 s)))"

text \<open>
  The loop \<^verbatim>\<open>for m := range s.metricsCh\<close>, over the samples this worker receives, each
  paired with the clock reading of its iteration.
\<close>

fun worker :: "golib \<Rightarrow> int \<Rightarrow> (Metric \<times> int) list \<Rightarrow> service \<Rightarrow> service" where
  "worker L wid [] s = s"
| "worker L wid ((m, now) # ms) s = worker L wid ms (worker_iter L wid now m s)"


text \<open>Helpers for stating what the store holds.\<close>

definition window_of :: "rdb \<Rightarrow> string list" where
  \<comment> \<open>the list stored under the window key (empty when the key is absent)\<close>
  "window_of c = (case store c redisWindowKey of Some (RList xs) \<Rightarrow> xs | _ \<Rightarrow> [])"

text \<open>The three states of the store after a push, a trim and a read that succeed.\<close>

definition after_push :: "rdb \<Rightarrow> string \<Rightarrow> rdb" where
  "after_push c v = c\<lparr>issued := issued c + 1,
                  store := (store c)(redisWindowKey \<mapsto> RList (v # window_of c))\<rparr>"

definition after_trim :: "rdb \<Rightarrow> string \<Rightarrow> rdb" where
  "after_trim c v = c\<lparr>issued := issued c + 2,
                   store := (store c)(redisWindowKey \<mapsto> RList (take 50 (v # window_of c)))\<rparr>"

definition after_read :: "rdb \<Rightarrow> string \<Rightarrow> rdb" where
  "after_read c v = c\<lparr>issued := issued c + 3,
                     store := (store c)(redisWindowKey \<mapsto> RList (take 50 (v # window_of c)))\<rparr>"


section \<open>Decoding the request body (encoding/json into \<^verbatim>\<open>Metric\<close>)\<close>

text \<open>
  \<^verbatim>\<open>json.NewDecoder(r.Body).Decode(&m)\<close> reads the next JSON value of the body; the body
  is represented by that value, \<open>None\<close> when reading it fails (malformed or empty). A
  number carries its literal. Storing the value into the struct follows the rules of
  encoding/json: a key selects the field whose name it equals up to case folding,
  unknown keys are skipped, \<^verbatim>\<open>null\<close> leaves a field as it is, a number is converted with
  \<^verbatim>\<open>strconv.ParseInt\<close> or \<^verbatim>\<open>strconv.ParseFloat\<close>, and anything else is a type error.
  After a type error the decoder goes on but reports the error at the end.
\<close>

definition to_upper :: "char \<Rightarrow> char" where
  "to_upper c =
     (let n = (of_char c :: nat) in if 97 \<le> n \<and> n \<le> 122 then char_of (n - 32) else c)"

text \<open>
  Case folding of a key: ASCII letters to upper case; of the other runes only U+017F
  (bytes C5 BF) and U+212A (bytes E2 84 AA) fold to an ASCII letter.
\<close>

fun foldName :: "string \<Rightarrow> string" where
  "foldName (c # d # x # cs) =
     (if c = CHR 0xE2 \<and> d = CHR 0x84 \<and> x = CHR 0xAA then CHR ''K'' # foldName cs
      else if c = CHR 0xC5 \<and> d = CHR 0xBF then CHR ''S'' # foldName (x # cs)
      else to_upper c # foldName (d # x # cs))"
| "foldName [c, d] =
     (if c = CHR 0xC5 \<and> d = CHR 0xBF then [CHR ''S''] else [to_upper c, to_upper d])"
| "foldName [c] = [to_upper c]"
| "foldName [] = []"

definition ParseInt64 :: "string \<Rightarrow> int option" where
  \<comment> \<open>\<^verbatim>\<open>strconv.ParseInt(s, 10, 64)\<close>, \<open>None\<close> for a syntax or range error\<close>
  "ParseInt64 s =
     (let neg = (s \<noteq> [] \<and> hd s = CHR ''-'');
          ds = (if s \<noteq> [] \<and> (hd s = CHR ''-'' \<or> hd s = CHR ''+'') then tl s else s)
      in if ds = [] then None
         else case parse_digits ds 0 of
                None \<Rightarrow> None
              | Some n \<Rightarrow>
                  (let v = (if neg then - n else n)
                   in if - (2 ^ 63) \<le> v \<and> v \<le> 2 ^ 63 - 1 then Some v else None))"

fun store_int :: "json \<Rightarrow> int \<Rightarrow> int option" where
  \<comment> \<open>the new value of an \<^verbatim>\<open>int64\<close> field, \<open>None\<close> for a type error\<close>
  "store_int JNull old = Some old"
| "store_int (JNumber lit) old = ParseInt64 lit"
| "store_int v old = None"

fun store_float :: "(string \<Rightarrow> float64 option) \<Rightarrow> json \<Rightarrow> float64 \<Rightarrow> float64 option" where
  "store_float P JNull old = Some old"
| "store_float P (JNumber lit) old = P lit"
| "store_float P v old = None"

fun decode_members ::
  "(string \<Rightarrow> float64 option) \<Rightarrow> (string \<times> json) list \<Rightarrow> Metric \<Rightarrow> bool \<Rightarrow> Metric \<times> bool"
where
  "decode_members P [] m ok = (m, ok)"
| "decode_members P ((k, v) # kvs) m ok =
     (let f = foldName k in
      if f = ''TIMESTAMP'' then
        (case store_int v (Timestamp m) of
           None \<Rightarrow> decode_members P kvs m False
         | Some n \<Rightarrow> decode_members P kvs (m\<lparr>Timestamp := n\<rparr>) ok)
      else if f = ''CPU'' then
        (case store_float P v (CPU m) of
           None \<Rightarrow> decode_members P kvs m False
         | Some x \<Rightarrow> decode_members P kvs (m\<lparr>CPU := x\<rparr>) ok)
      else if f = ''RPS'' then
        (case store_float P v (RPS m) of
           None \<Rightarrow> decode_members P kvs m False
         | Some x \<Rightarrow> decode_members P kvs (m\<lparr>RPS := x\<rparr>) ok)
      else decode_members P kvs m ok)"

fun Decode :: "(string \<Rightarrow> float64 option) \<Rightarrow> json option \<Rightarrow> Metric \<Rightarrow> Metric option" where
  \<comment> \<open>\<open>None\<close> stands for \<^verbatim>\<open>err != nil\<close>\<close>
  "Decode P None m = None"
| "Decode P (Some JNull) m = Some m"
| "Decode P (Some (JObject kvs)) m =
     (case decode_members P kvs m True of (m', ok) \<Rightarrow> if ok then Some m' else None)"
| "Decode P (Some v) m = None"


section \<open>The HTTP handlers (main.go, lines 171-218)\<close>

record request =
  Method :: string
  Body :: "json option"

record response =
  status :: nat
  headers :: "(string \<times> string) list"
  body :: string

definition MethodGet :: string where "MethodGet = ''GET''"
definition MethodPost :: string where "MethodPost = ''POST''"
definition StatusOK :: nat where "StatusOK = 200"
definition StatusAccepted :: nat where "StatusAccepted = 202"
definition StatusNoContent :: nat where "StatusNoContent = 204"
definition StatusBadRequest :: nat where "StatusBadRequest = 400"
definition StatusMethodNotAllowed :: nat where "StatusMethodNotAllowed = 405"
definition StatusServiceUnavailable :: nat where "StatusServiceUnavailable = 503"

definition http_Error :: "string \<Rightarrow> nat \<Rightarrow> response" where
  \<comment> \<open>\<^verbatim>\<open>http.Error(w, msg, code)\<close>: a plain-text reply, the message followed by a newline\<close>
  "http_Error msg code =
     \<lparr>status = code,
      headers = [(''Content-Type'', ''text/plain; charset=utf-8''),
                 (''X-Content-Type-Options'', ''nosniff'')],
      body = msg @ [CHR 0x0A]\<rparr>"

definition zero_Metric :: Metric where
  \<comment> \<open>\<^verbatim>\<open>var m Metric\<close>\<close>
  "zero_Metric = \<lparr>Timestamp = 0, CPU = PZero, RPS = PZero\<rparr>"

definition accepted_body :: string where
  \<open>accepted_body = ''{"status":"accepted"}''\<close>

definition handleIngest :: "golib \<Rightarrow> int \<Rightarrow> request \<Rightarrow> service \<Rightarrow> response \<times> service" where
  \<comment> \<open>\<open>now\<close> is \<^verbatim>\<open>time.Now().Unix()\<close>; the deferred \<^verbatim>\<open>Observe\<close> runs on every path\<close>
  "handleIngest L now r s =
     (let s0 = s\<lparr>ingestLatency := ingestLatency s + 1\<rparr> in
      if Method r \<noteq> MethodPost then (http_Error ''POST only'' StatusMethodNotAllowed, s0)
      else case Decode (ParseFloat L) (Body r) zero_Metric of
        None \<Rightarrow> (http_Error (''bad json: '' @ ErrorText L (Body r)) StatusBadRequest, s0)
      | Some m0 \<Rightarrow>
          (let m = (if Timestamp m0 = 0 then m0\<lparr>Timestamp := now\<rparr> else m0);
               ch = metricsCh s
           in if length (buf ch) < cap ch
              then (\<lparr>status = StatusAccepted,
                     headers = [(''Content-Type'', ''application/json'')],
                     body = accepted_body\<rparr>,
                    s0\<lparr>metricsCh := ch\<lparr>buf := buf ch @ [m]\<rparr>,
                       ingestTotal := ingestTotal s + 1\<rparr>)
              else (http_Error ''overloaded'' StatusServiceUnavailable, s0)))"

definition handleAnalyze :: "request \<Rightarrow> service \<Rightarrow> response \<times> service" where
  "handleAnalyze r s =
     (if Method r \<noteq> MethodGet then (http_Error ''GET only'' StatusMethodNotAllowed, s)
      else case Get (rdb s) redisLastKey of
        (Inl err, c) \<Rightarrow>
          (if err = redis_Nil then (\<lparr>status = StatusNoContent, headers = [], body = []\<rparr>, s\<lparr>rdb := c\<rparr>)
           else (http_Error (''redis error: '' @ Error err) StatusServiceUnavailable, s\<lparr>rdb := c\<rparr>))
      | (Inr val, c) \<Rightarrow>
          (\<lparr>status = StatusOK, headers = [(''Content-Type'', ''application/json'')], body = val\<rparr>,
           s\<lparr>rdb := c\<rparr>))"


section \<open>Instances for the examples\<close>

text \<open>
  Stand-ins for the library parameters at the inputs the examples use: integers are
  formatted exactly, and the serialisation renders the integer and boolean fields of
  an analysis (\<^verbatim>\<open>json.Marshal\<close> fails on a NaN or an infinity, and so does this one).
\<close>

definition ex_FormatFloat :: "float64 \<Rightarrow> string" where
  "ex_FormatFloat x =
     (case x of
        Fin m e \<Rightarrow> (if 0 \<le> e \<and> bitlen \<bar>m\<bar> + e \<le> 53 then Itoa (m * 2 ^ nat e) else ''?'')
      | NaN \<Rightarrow> ''NaN'' | PInf \<Rightarrow> ''+Inf'' | NInf \<Rightarrow> ''-Inf'' | NZero \<Rightarrow> ''-0'')"

definition ex_Marshal :: "Analysis \<Rightarrow> string option" where
  "ex_Marshal a =
     (if is_finite (RollingAvg a) \<and> is_finite (StdDev a) \<and> is_finite (ZScore a)
         \<and> is_finite (LastRPS a) \<and> is_finite (LastCPU a) \<and> is_finite (ThresholdZ a)
      then Some (''count='' @ Itoa (Count a) @ '' windowSize='' @ Itoa (WindowSize a)
            @ '' isAnomaly='' @ (if IsAnomaly a then ''true'' else ''false'')
            @ '' lastTimestamp='' @ Itoa (LastTs a) @ '' computedAt='' @ Itoa (ComputedAt a))
      else None)"

definition ex_lib :: golib where
  "ex_lib = \<lparr>ParseFloat = ParseFloat_plain, FormatFloat = ex_FormatFloat,
             Marshal = ex_Marshal, ErrorText = (\<lambda>b. ''invalid body'')\<rparr>"

definition no_faults :: "nat \<Rightarrow> string option" where
  "no_faults k = None"

definition fault_at :: "nat \<Rightarrow> nat \<Rightarrow> string option" where
  \<comment> \<open>only the command sent as number \<open>j\<close> fails\<close>
  "fault_at j k = (if k = j then Some ''i/o timeout'' else None)"

definition ex_sample :: Metric where
  \<comment> \<open>the request of the README: cpu 12, rps 120\<close>
  "ex_sample = \<lparr>Timestamp = 1766925730, CPU = Fin 3 2, RPS = Fin 15 3\<rparr>"


definition ex_service :: "string list \<Rightarrow> (nat \<Rightarrow> string option) \<Rightarrow> service" where
  \<comment> \<open>a fresh service whose store holds the window \<open>xs\<close>\<close>
  "ex_service xs f =
     NewService \<lparr>store = (if xs = [] then Map.empty else [redisWindowKey \<mapsto> RList xs]),
                 faults = f, issued = 0\<rparr>"





definition ex_get :: request where
  "ex_get = \<lparr>Method = ''GET'', Body = None\<rparr>"

definition ex_post :: "json option \<Rightarrow> request" where
  "ex_post j = \<lparr>Method = ''POST'', Body = j\<rparr>"

definition ex_stored :: "string \<Rightarrow> service" where
  \<comment> \<open>a service after a successful \<open>Set\<close> of the result key\<close>
  "ex_stored b = (ex_service [] no_faults)
     \<lparr>rdb := (rdb (ex_service [] no_faults))
        \<lparr>issued := 1, store := [redisLastKey \<mapsto> RString b]\<rparr>\<rparr>"

definition ex_wrong_type :: service where
  \<comment> \<open>a service whose result key holds a list\<close>
  "ex_wrong_type = (ex_service [] no_faults)
     \<lparr>rdb := (rdb (ex_service [] no_faults))\<lparr>store := [redisLastKey \<mapsto> RList [''x'']]\<rparr>\<rparr>"


definition ex_body :: json where
  \<comment> \<open>the body of the README's request\<close>
  "ex_body = JObject [(''cpu'', JNumber ''12''), (''rps'', JNumber ''120'')]"

definition ex_odd_body :: json where
  \<comment> \<open>a negative cpu and a very large rps\<close>
  "ex_odd_body = JObject [(''cpu'', JNumber ''-5''), (''rps'', JNumber ''1000000000'')]"

definition ex_full :: service where
  \<comment> \<open>a service whose queue holds 10000 samples\<close>
  "ex_full = (ex_service [] no_faults)\<lparr>metricsCh := \<lparr>buf = replicate 10000 ex_sample, cap = 10000\<rparr>\<rparr>"

definition ex_other_body :: json where
  \<comment> \<open>an object with none of the three fields\<close>
  "ex_other_body = JObject [(''host'', JString ''a'')]"







section \<open>Facts about the arithmetic and the loops\<close>

lemma canon_cases: "\<exists>m' e'. canon m e = Fin m' e' \<and> (0 < m \<longrightarrow> 0 < m') \<and> (m < 0 \<longrightarrow> m' < 0) \<and> (m = 0 \<longrightarrow> m' = 0 \<and> e' = 0)"
proof (induction m e rule: canon.induct)
  case (1 m e)
  show ?case
  proof (cases "m = 0")
    case True
    then show ?thesis by (simp add: canon.simps)
  next
    case False
    show ?thesis
    proof (cases "even m")
      case True
      with False have eq: "canon m e = canon (m div 2) (e + 1)"
        by (subst canon.simps) simp
      from 1[OF False True] obtain m' e' where
        h: "canon (m div 2) (e + 1) = Fin m' e'" "0 < m div 2 \<longrightarrow> 0 < m'" "m div 2 < 0 \<longrightarrow> m' < 0"
        by blast
      from True False have "0 < m \<longrightarrow> 0 < m div 2" "m < 0 \<longrightarrow> m div 2 < 0"
        by auto
      with h eq False show ?thesis by auto
    next
      case odd: False
      with False have "canon m e = Fin m e" by (subst canon.simps) simp
      with False show ?thesis by auto
    qed
  qed
qed

lemma binade_one: assumes "0 < a" shows "binade a 1 = bitlen a - 1"
proof -
  from assms have b1: "1 \<le> bitlen a" by (simp add: bitlen_ge_iff_power)
  have bl1: "bitlen 1 = 1" by (subst compute_bitlen) simp
  from bitlen_bounds[OF assms] have lo: "2 ^ nat (bitlen a - 1) \<le> a" by simp
  have "shl \<bar>a\<bar> (- (bitlen a - 1)) = a"
    using assms b1 by (auto simp: shl_def)
  moreover have "shl 1 (bitlen a - 1) = 2 ^ nat (bitlen a - 1)"
    using b1 by (simp add: shl_def)
  ultimately show ?thesis
    using lo assms by (simp add: binade_def Let_def bl1)
qed

lemma rne_div_ge: assumes "0 < b" shows "a div b \<le> rne_div a b"
  by (simp add: rne_div_def Let_def)



lemma le_div_pow2:
  assumes "(c::int) * 2 ^ k \<le> n"
  shows "c \<le> n div 2 ^ k"
proof -
  have "c * 2 ^ k div 2 ^ k \<le> n div 2 ^ k"
    by (rule zdiv_mono1[OF assms]) simp
  then show ?thesis by simp
qed

lemma round_int_mantissa_pos:
  assumes "0 < n"
  shows "0 < rne_div (shl n (- max (binade n 1 - 52) (- 1074))) (shl 1 (max (binade n 1 - 52) (- 1074)))"
proof -
  define t where "t = max (binade n 1 - 52) (- 1074)"
  have "0 < rne_div (shl n (- t)) (shl 1 t)"
  proof (cases "t \<le> 0")
    case True
    then have s1: "shl 1 t = 1" by (auto simp: shl_def)
    have "0 < shl n (- t)" using True assms by (simp add: shl_def)
    then show ?thesis by (simp add: s1 rne_div_def Let_def)
  next
    case False
    then have tpos: "0 < t" by simp
    then have teq: "t = bitlen n - 53"
      using binade_one[OF assms] by (simp add: t_def max_def split: if_splits)
    from bitlen_bounds[OF assms] have lo: "2 ^ nat (bitlen n - 1) \<le> n" by simp
    have "nat (bitlen n - 1) = 52 + nat t" using teq tpos by simp
    with lo have "(2::int) ^ 52 * 2 ^ nat t \<le> n" by (simp only: power_add)
    then have "(2::int) ^ 52 \<le> n div 2 ^ nat t" by (rule le_div_pow2)
    moreover have "shl n (- t) = n" "shl 1 t = 2 ^ nat t" using tpos by (simp_all add: shl_def)
    moreover have "n div 2 ^ nat t \<le> rne_div n (2 ^ nat t)" by (rule rne_div_ge) simp
    ultimately have "(2::int) ^ 52 \<le> rne_div (shl n (- t)) (shl 1 t)" by simp
    moreover have "(0::int) < 2 ^ 52" by simp
    ultimately show ?thesis by (rule less_le_trans[rotated])
  qed
  then show ?thesis unfolding t_def .
qed

lemma float64_of_int_pos:
  assumes "0 < n"
  shows "float64_of_int n = PInf \<or> (\<exists>m e. float64_of_int n = Fin m e \<and> 0 < m)"
proof -
  define t where "t = max (binade n 1 - 52) (- 1074)"
  define k where "k = rne_div (shl n (- t)) (shl 1 t)"
  have kpos: "0 < k" unfolding k_def t_def by (rule round_int_mantissa_pos[OF assms])
  from canon_cases[of k t] kpos obtain m e where c: "canon k t = Fin m e" "0 < m" by auto
  have "float64_of_int n = (if 1024 < bitlen \<bar>k\<bar> + t then PInf else canon k t)"
    using kpos assms unfolding float64_of_int_def round_frac_def k_def t_def
    by (simp add: Let_def)
  with c show ?thesis by auto
qed


lemma parse_loop_eq:
  "parse_loop P vs nums acc = (nums @ List.map_filter P vs, foldl fadd acc (List.map_filter P vs))"
  by (induction vs arbitrary: nums acc) (auto simp: List.map_filter_simps split: option.splits)

lemma map_filter_filter:
  "List.map_filter P (filter (\<lambda>v. P v \<noteq> None) vs) = List.map_filter P vs"
  by (induction vs) (auto simp: List.map_filter_simps split: option.splits)

lemma map_filter_append:
  "List.map_filter P (xs @ ys) = List.map_filter P xs @ List.map_filter P ys"
  by (simp add: List.map_filter_def)

lemma variance_loop_eq:
  "variance_loop xs mean acc = foldl fadd acc (map (\<lambda>x. fmul (fsub x mean) (fsub x mean)) xs)"
  by (induction xs arbitrary: acc) (simp_all add: Let_def)

lemma compute_unfold:
  "compute P values m now =
     (let nums = List.map_filter P values;
          ms = mean_stddev nums (foldl fadd PZero nums);
          z = zscore (int (length nums)) (RPS m) (fst ms) (snd ms)
      in \<lparr>Count = int (length nums), WindowSize = windowSize, RollingAvg = fst ms,
          StdDev = snd ms, ZScore = z, IsAnomaly = fgt (fabs z) zThreshold,
          LastRPS = RPS m, LastCPU = CPU m, LastTs = Timestamp m,
          ThresholdZ = zThreshold, ComputedAt = now\<rparr>)"
  by (simp add: compute_def parse_loop_eq Let_def split: prod.splits)

lemma fgt_zero_threshold: "fgt (fabs PZero) zThreshold = False"
  by (simp add: PZero_def zThreshold_def shl_def)

lemma fsub_self:
  assumes "x = NZero \<or> x = PZero \<or> (\<exists>m e. x = Fin m e \<and> m \<noteq> 0)"
  shows "fsub x x = PZero"
  using assms by (auto simp: fsub_def PZero_def round_frac_def shl_def)

lemma fmul_zero: "fmul PZero PZero = PZero"
  by (simp add: fmul_def PZero_def signed_def)

lemma fadd_zero: "fadd PZero PZero = PZero"
  by (simp add: PZero_def round_frac_def shl_def)

lemma foldl_fadd_zeros: "foldl fadd PZero (replicate k PZero) = PZero"
  by (induction k) (simp_all add: fadd_zero)

lemma fdiv_zero_count:
  assumes "0 < n"
  shows "fdiv PZero (float64_of_int n) = PZero"
  using float64_of_int_pos[OF assms]
  by (auto simp: fdiv_def PZero_def signed_def)

lemma fsqrt_zero: "fsqrt PZero = PZero"
  by (simp add: PZero_def)

lemma fgt_zero_zero: "fgt PZero PZero = False"
  by (simp add: PZero_def)

lemma mean_stddev_nonempty:
  assumes "nums \<noteq> []"
  shows "mean_stddev nums acc =
     (fdiv acc (float64_of_int (int (length nums))),
      fsqrt (fdiv (variance_loop nums (fdiv acc (float64_of_int (int (length nums)))) PZero)
                  (float64_of_int (int (length nums)))))"
  using assms by (simp add: mean_stddev_def Let_def)

lemma mean_stddev_empty: "mean_stddev [] acc = (PZero, PZero)"
  by (simp add: mean_stddev_def)

lemma finite_f64_cases:
  assumes "is_finite v" "is_f64 v"
  shows "v = NZero \<or> v = PZero \<or> (\<exists>m e. v = Fin m e \<and> m \<noteq> 0)"
  using assms by (cases v) (auto simp: PZero_def split: if_splits)

lemma variance_loop_identical:
  assumes "is_finite v" "is_f64 v"
  shows "variance_loop (replicate k v) v PZero = PZero"
proof -
  have "fsub v v = PZero" by (rule fsub_self[OF finite_f64_cases[OF assms]])
  then show ?thesis by (simp add: variance_loop_eq fmul_zero foldl_fadd_zeros)
qed

lemma stats_empty:
  assumes "Count (compute P values m now) = 0"
  shows "RollingAvg (compute P values m now) = PZero \<and> StdDev (compute P values m now) = PZero
    \<and> ZScore (compute P values m now) = PZero \<and> \<not> IsAnomaly (compute P values m now)"
proof -
  from assms have "List.map_filter P values = []" by (simp add: compute_unfold Let_def)
  then show ?thesis
    by (simp add: compute_unfold Let_def mean_stddev_empty zscore_def fgt_zero_threshold)
qed

lemma stats_single:
  assumes "Count (compute P values m now) = 1"
  shows "ZScore (compute P values m now) = PZero"
  using assms by (simp add: compute_unfold Let_def zscore_def)

lemma stats_identical:
  assumes k: "1 < k" and nums: "List.map_filter P values = replicate k v"
    and fin: "is_finite v" "is_f64 v"
    and mean: "RollingAvg (compute P values m now) = v"
  shows "StdDev (compute P values m now) = PZero \<and> ZScore (compute P values m now) = PZero
    \<and> \<not> IsAnomaly (compute P values m now)"
proof -
  from k have ne: "replicate k v \<noteq> []" by auto
  have kpos: "0 < int k" using k by simp
  let ?acc = "foldl fadd PZero (replicate k v)"
  from mean have mv: "fdiv ?acc (float64_of_int (int k)) = v"
    by (simp add: compute_unfold Let_def nums mean_stddev_nonempty[OF ne])
  have sd: "snd (mean_stddev (replicate k v) ?acc) = PZero"
    by (simp add: mean_stddev_nonempty[OF ne] mv variance_loop_identical[OF fin]
        fdiv_zero_count[OF kpos] fsqrt_zero)
  then show ?thesis
    by (simp add: compute_unfold Let_def nums zscore_def fgt_zero_zero fgt_zero_threshold)
qed











lemma compute_fields:
  assumes "List.map_filter P values = nums"
    and "mean_stddev nums (foldl fadd PZero nums) = (mu, sd)"
    and "zscore (int (length nums)) (RPS m) mu sd = z"
  shows "compute P values m now =
     \<lparr>Count = int (length nums), WindowSize = windowSize, RollingAvg = mu, StdDev = sd,
      ZScore = z, IsAnomaly = fgt (fabs z) zThreshold, LastRPS = RPS m, LastCPU = CPU m,
      LastTs = Timestamp m, ThresholdZ = zThreshold, ComputedAt = now\<rparr>"
  using assms by (simp add: compute_unfold Let_def)

lemma plain_120: "ParseFloat_plain ''120'' = Some (Fin 15 3)" by code_simp
lemma plain_na: "ParseFloat_plain ''n/a'' = None" by code_simp
lemma plain_abc: "ParseFloat_plain ''abc'' = None" by code_simp
lemma plain_7: "ParseFloat_plain ''7'' = Some (Fin 7 0)" by code_simp
lemma plain_01: "ParseFloat_plain ''0.1'' = Some (Fin 3602879701896397 (- 55))" by code_simp










lemma lrange_window: "lrange xs 0 (windowSize - 1) = take 50 xs"
  by (cases "xs = []") (auto simp: lrange_def windowSize_def Let_def min_def)

lemma LPush_issued:
  assumes "LPush c key v = (r, c1)"
  shows "issued c1 = issued c + 1" and "faults c1 = faults c"
  using assms
  by (auto simp: LPush_def next_fault_def split: option.splits rval.splits)

lemma LPush_fail:
  assumes "LPush c key v = (Inl err, c1)"
  shows "store c1 = store c"
  using assms
  by (auto simp: LPush_def next_fault_def split: option.splits rval.splits)

lemma LTrim_issued:
  assumes "LTrim c key a b = (r, c1)"
  shows "issued c1 = issued c + 1" and "faults c1 = faults c"
  using assms
  by (auto simp: LTrim_def next_fault_def Let_def split: option.splits rval.splits)

lemma LTrim_fail:
  assumes "LTrim c key a b = (Inl err, c1)"
  shows "store c1 = store c"
  using assms
  by (auto simp: LTrim_def next_fault_def Let_def split: option.splits rval.splits)

lemma LRange_issued:
  assumes "LRange c key a b = (r, c1)"
  shows "issued c1 = issued c + 1" and "faults c1 = faults c" and "store c1 = store c"
  using assms
  by (auto simp: LRange_def next_fault_def split: option.splits rval.splits)

lemma Set_issued:
  assumes "Set c key v = (r, c1)"
  shows "issued c1 = issued c + 1" and "faults c1 = faults c"
  using assms
  by (auto simp: Set_def next_fault_def split: option.splits)

lemma Set_fail:
  assumes "Set c key v = (Inl err, c1)"
  shows "store c1 = store c"
  using assms
  by (auto simp: Set_def next_fault_def split: option.splits)

lemma Set_ok:
  assumes "Set c key v = (Inr u, c1)"
  shows "store c1 = (store c)(key \<mapsto> RString v)"
  using assms
  by (auto simp: Set_def next_fault_def split: option.splits)

lemma Get_issued:
  assumes "Get c key = (r, c1)"
  shows "issued c1 = issued c + 1" and "faults c1 = faults c" and "store c1 = store c"
  using assms
  by (auto simp: Get_def next_fault_def split: option.splits rval.splits)

lemma LRange_window_length:
  assumes "LRange c key 0 (windowSize - 1) = (Inr vs, c1)"
  shows "length vs \<le> 50"
  using assms
  by (auto simp: LRange_def next_fault_def lrange_window split: option.splits rval.splits)

lemma LTrim_window:
  assumes "LTrim c key 0 (windowSize - 1) = (Inr u, c1)"
  shows "store c1 key = None \<or> (\<exists>ys. store c1 key = Some (RList ys) \<and> ys \<noteq> [] \<and> length ys \<le> 50)"
  using assms
  by (auto simp: LTrim_def next_fault_def lrange_window Let_def split: option.splits rval.splits if_splits)

lemma Count_le_length: "Count (compute P values m now) \<le> int (length values)"
proof -
  have "length (List.map_filter P values) \<le> length values"
    by (simp add: List.map_filter_def)
  then show ?thesis by (simp add: compute_unfold Let_def)
qed


lemma logline_text:
  "logline wid what err = ''[worker '' @ Itoa wid @ ''] '' @ what @ '' error: '' @ Error err"
  by (simp add: logline_def)

lemma worker_iter_push_fails:
  assumes "LPush (rdb s) redisWindowKey (FormatFloat L (RPS m)) = (Inl err, c1)"
  shows "worker_iter L wid now m s = s\<lparr>rdb := c1, logs := logs s @ [logline wid ''redis LPUSH'' err]\<rparr>"
  using assms by (simp add: worker_iter_def)

lemma worker_iter_trim_fails:
  assumes "LPush (rdb s) redisWindowKey (FormatFloat L (RPS m)) = (Inr n, c1)"
    and "LTrim c1 redisWindowKey 0 (windowSize - 1) = (Inl err, c2)"
  shows "worker_iter L wid now m s = s\<lparr>rdb := c2, logs := logs s @ [logline wid ''redis LTRIM'' err]\<rparr>"
  using assms by (simp add: worker_iter_def)

lemma worker_iter_range_fails:
  assumes "LPush (rdb s) redisWindowKey (FormatFloat L (RPS m)) = (Inr n, c1)"
    and "LTrim c1 redisWindowKey 0 (windowSize - 1) = (Inr u, c2)"
    and "LRange c2 redisWindowKey 0 (windowSize - 1) = (Inl err, c3)"
  shows "worker_iter L wid now m s = s\<lparr>rdb := c3, logs := logs s @ [logline wid ''redis LRANGE'' err]\<rparr>"
  using assms by (simp add: worker_iter_def)

lemma worker_iter_computes:
  assumes "LPush (rdb s) redisWindowKey (FormatFloat L (RPS m)) = (Inr n, c1)"
    and "LTrim c1 redisWindowKey 0 (windowSize - 1) = (Inr u, c2)"
    and "LRange c2 redisWindowKey 0 (windowSize - 1) = (Inr values, c3)"
  shows "worker_iter L wid now m s =
    persist_and_observe L wid (compute (ParseFloat L) values m now) c3 s"
  using assms by (simp add: worker_iter_def)

lemma persist_fails:
  assumes "Set c redisLastKey (case Marshal L a of Some bs \<Rightarrow> bs | None \<Rightarrow> []) = (Inl err, c')"
  shows "persist_and_observe L wid a c s =
    s\<lparr>rdb := c', logs := logs s @ [logline wid ''redis SET last_analysis'' err],
      currentRollingAvg := RollingAvg a,
      anomalyTotal := (if IsAnomaly a then anomalyTotal s + 1 else anomalyTotal s),
      anomalyRate := (if IsAnomaly a then Fin 1 0 else PZero)\<rparr>"
  using assms by (simp add: persist_and_observe_def Let_def)



lemma LPush_fault:
  assumes "faults c (issued c) = Some e"
  shows "LPush c key v = (Inl (RedisError e), c\<lparr>issued := issued c + 1\<rparr>)"
  using assms by (simp add: LPush_def next_fault_def)

lemma LTrim_fault:
  assumes "faults c (issued c) = Some e"
  shows "LTrim c key a b = (Inl (RedisError e), c\<lparr>issued := issued c + 1\<rparr>)"
  using assms by (simp add: LTrim_def next_fault_def)

lemma LRange_fault:
  assumes "faults c (issued c) = Some e"
  shows "LRange c key a b = (Inl (RedisError e), c\<lparr>issued := issued c + 1\<rparr>)"
  using assms by (simp add: LRange_def next_fault_def)

lemma Set_fault:
  assumes "faults c (issued c) = Some e"
  shows "Set c key v = (Inl (RedisError e), c\<lparr>issued := issued c + 1\<rparr>)"
  using assms by (simp add: Set_def next_fault_def)

lemma Set_no_fault:
  assumes "faults c (issued c) = None"
  shows "Set c key v = (Inr (), c\<lparr>issued := issued c + 1, store := (store c)(key \<mapsto> RString v)\<rparr>)"
  using assms by (simp add: Set_def next_fault_def)

lemma LPush_window:
  assumes "faults c (issued c) = None" and "\<forall>x. store c redisWindowKey \<noteq> Some (RString x)"
  shows "LPush c redisWindowKey v =
    (Inr (int (length (window_of c)) + 1),
     c\<lparr>issued := issued c + 1, store := (store c)(redisWindowKey \<mapsto> RList (v # window_of c))\<rparr>)"
  using assms
  by (auto simp: LPush_def next_fault_def window_of_def split: option.splits rval.splits)

lemma LTrim_window_ok:
  assumes "faults c (issued c) = None" and "store c redisWindowKey = Some (RList ys)" and "ys \<noteq> []"
  shows "LTrim c redisWindowKey 0 (windowSize - 1) =
    (Inr (), c\<lparr>issued := issued c + 1, store := (store c)(redisWindowKey \<mapsto> RList (take 50 ys))\<rparr>)"
  using assms by (simp add: LTrim_def next_fault_def lrange_window Let_def)

lemma LRange_window_ok:
  assumes "faults c (issued c) = None" and "store c redisWindowKey = Some (RList ys)"
  shows "LRange c redisWindowKey 0 (windowSize - 1) = (Inr (take 50 ys), c\<lparr>issued := issued c + 1\<rparr>)"
  using assms by (simp add: LRange_def next_fault_def lrange_window)


lemma push_step:
  assumes "faults c (issued c) = None" and "\<forall>x. store c redisWindowKey \<noteq> Some (RString x)"
  shows "LPush c redisWindowKey v = (Inr (int (length (window_of c)) + 1), after_push c v)"
  unfolding after_push_def by (rule LPush_window[OF assms])

lemma trim_step:
  assumes "faults c (issued c + 1) = None"
  shows "LTrim (after_push c v) redisWindowKey 0 (windowSize - 1) = (Inr (), after_trim c v)"
proof -
  have "LTrim (after_push c v) redisWindowKey 0 (windowSize - 1) =
    (Inr (), (after_push c v)\<lparr>issued := issued (after_push c v) + 1,
       store := (store (after_push c v))(redisWindowKey \<mapsto> RList (take 50 (v # window_of c)))\<rparr>)"
    using assms by (intro LTrim_window_ok) (simp_all add: after_push_def)
  then show ?thesis by (simp add: after_push_def after_trim_def)
qed

lemma read_step:
  assumes "faults c (issued c + 2) = None"
  shows "LRange (after_trim c v) redisWindowKey 0 (windowSize - 1)
    = (Inr (take 50 (v # window_of c)), after_read c v)"
proof -
  have "LRange (after_trim c v) redisWindowKey 0 (windowSize - 1) =
    (Inr (take 50 (take 50 (v # window_of c))), (after_trim c v)\<lparr>issued := issued (after_trim c v) + 1\<rparr>)"
    using assms by (intro LRange_window_ok) (simp_all add: after_trim_def)
  then show ?thesis by (simp add: after_trim_def after_read_def)
qed

lemma trim_fault_step:
  assumes "faults c (issued c + 1) = Some e"
  shows "LTrim (after_push c v) redisWindowKey 0 (windowSize - 1)
    = (Inl (RedisError e), (after_push c v)\<lparr>issued := issued c + 2\<rparr>)"
proof -
  have "LTrim (after_push c v) redisWindowKey 0 (windowSize - 1)
    = (Inl (RedisError e), (after_push c v)\<lparr>issued := issued (after_push c v) + 1\<rparr>)"
    using assms by (intro LTrim_fault) (simp_all add: after_push_def)
  then show ?thesis by (simp add: after_push_def)
qed

lemma read_fault_step:
  assumes "faults c (issued c + 2) = Some e"
  shows "LRange (after_trim c v) redisWindowKey 0 (windowSize - 1)
    = (Inl (RedisError e), (after_trim c v)\<lparr>issued := issued c + 3\<rparr>)"
proof -
  have "LRange (after_trim c v) redisWindowKey 0 (windowSize - 1)
    = (Inl (RedisError e), (after_trim c v)\<lparr>issued := issued (after_trim c v) + 1\<rparr>)"
    using assms by (intro LRange_fault) (simp_all add: after_trim_def)
  then show ?thesis by (simp add: after_trim_def)
qed

lemma set_fault_step:
  assumes "faults c (issued c + 3) = Some e"
  shows "Set (after_read c v) key b = (Inl (RedisError e), (after_read c v)\<lparr>issued := issued c + 4\<rparr>)"
proof -
  have "Set (after_read c v) key b
    = (Inl (RedisError e), (after_read c v)\<lparr>issued := issued (after_read c v) + 1\<rparr>)"
    using assms by (intro Set_fault) (simp_all add: after_read_def)
  then show ?thesis by (simp add: after_read_def)
qed



lemma ex_rdb:
  "store (rdb (ex_service xs f)) = (if xs = [] then Map.empty else [redisWindowKey \<mapsto> RList xs])"
  "faults (rdb (ex_service xs f)) = f"
  "issued (rdb (ex_service xs f)) = 0"
  "window_of (rdb (ex_service xs f)) = xs"
  "\<forall>x. store (rdb (ex_service xs f)) redisWindowKey \<noteq> Some (RString x)"
  by (simp_all add: ex_service_def NewService_def window_of_def)

lemma ex_service_fields:
  "logs (ex_service xs f) = []"
  "currentRollingAvg (ex_service xs f) = PZero"
  "anomalyTotal (ex_service xs f) = 0"
  "anomalyRate (ex_service xs f) = PZero"
  by (simp_all add: ex_service_def NewService_def)

lemma ex_lib_fields:
  "ParseFloat ex_lib = ParseFloat_plain"
  "FormatFloat ex_lib = ex_FormatFloat"
  "Marshal ex_lib = ex_Marshal"
  by (simp_all add: ex_lib_def)






lemma fmt_120: "FormatFloat ex_lib (RPS ex_sample) = ''120''" by code_simp



lemma after_push_fields:
  "faults (after_push c v) = faults c"
  "issued (after_push c v) = issued c + 1"
  "window_of (after_push c v) = v # window_of c"
  "\<forall>x. store (after_push c v) redisWindowKey \<noteq> Some (RString x)"
  by (simp_all add: after_push_def window_of_def)

lemma after_read_fields:
  "store (after_read c v) redisLastKey = store c redisLastKey"
  "issued (after_read c v) = issued c + 3"
  by (simp_all add: after_read_def redisLastKey_def redisWindowKey_def)

lemma itoa_0: "Itoa 0 = ''0''" by code_simp

lemma plain_120_lib: "List.map_filter ParseFloat_plain [''120''] = [Fin 15 3]"
  by (simp add: List.map_filter_simps plain_120)

lemma ex_sample_stats:
  "compute (ParseFloat ex_lib) [''120''] ex_sample 1766925731 =
     \<lparr>Count = 1, WindowSize = windowSize, RollingAvg = Fin 15 3, StdDev = PZero,
      ZScore = PZero, IsAnomaly = False, LastRPS = Fin 15 3, LastCPU = Fin 3 2,
      LastTs = 1766925730, ThresholdZ = zThreshold, ComputedAt = 1766925731\<rparr>"
proof -
  have ms: "mean_stddev [Fin 15 3] (foldl fadd PZero [Fin 15 3]) = (Fin 15 3, PZero)"
    by code_simp
  have z: "zscore (int (length [Fin 15 3])) (RPS ex_sample) (Fin 15 3) PZero = PZero"
    by (simp add: zscore_def)
  show ?thesis
    unfolding ex_lib_fields compute_fields[OF plain_120_lib ms z]
    by (simp add: fgt_zero_threshold ex_sample_def)
qed

lemma ex_first_steps:
  assumes "f 0 = None"
  shows "LPush (rdb (ex_service [] f)) redisWindowKey (FormatFloat ex_lib (RPS ex_sample))
     = (Inr 1, after_push (rdb (ex_service [] f)) ''120'')"
  unfolding fmt_120
  using push_step[of "rdb (ex_service [] f)" "''120''"] assms by (simp add: ex_rdb)

lemma ex_trim_step:
  assumes "f 1 = None"
  shows "LTrim (after_push (rdb (ex_service [] f)) ''120'') redisWindowKey 0 (windowSize - 1)
     = (Inr (), after_trim (rdb (ex_service [] f)) ''120'')"
  using trim_step[of "rdb (ex_service [] f)" "''120''"] assms by (simp add: ex_rdb)

lemma ex_read_step:
  assumes "f 2 = None"
  shows "LRange (after_trim (rdb (ex_service [] f)) ''120'') redisWindowKey 0 (windowSize - 1)
     = (Inr [''120''], after_read (rdb (ex_service [] f)) ''120'')"
  using read_step[of "rdb (ex_service [] f)" "''120''"] assms by (simp add: ex_rdb numeral_2_eq_2)

lemma fault_at_simps:
  "fault_at j j = Some ''i/o timeout''" "j \<noteq> k \<Longrightarrow> fault_at j k = None"
  by (simp_all add: fault_at_def)


lemma Get_cases:
  "faults c (issued c) = Some e \<Longrightarrow> Get c key = (Inl (RedisError e), c\<lparr>issued := issued c + 1\<rparr>)"
  "faults c (issued c) = None \<Longrightarrow> store c key = None \<Longrightarrow>
     Get c key = (Inl redis_Nil, c\<lparr>issued := issued c + 1\<rparr>)"
  "faults c (issued c) = None \<Longrightarrow> store c key = Some (RString v) \<Longrightarrow>
     Get c key = (Inr v, c\<lparr>issued := issued c + 1\<rparr>)"
  "faults c (issued c) = None \<Longrightarrow> store c key = Some (RList xs) \<Longrightarrow>
     Get c key = (Inl WRONGTYPE, c\<lparr>issued := issued c + 1\<rparr>)"
  by (simp_all add: Get_def next_fault_def)

lemma handleAnalyze_not_get:
  assumes "Method r \<noteq> MethodGet"
  shows "handleAnalyze r s = (http_Error ''GET only'' StatusMethodNotAllowed, s)"
  using assms by (simp add: handleAnalyze_def)

lemma handleAnalyze_get:
  assumes "Method r = MethodGet"
  shows "Get (rdb s) redisLastKey = (Inr v, c) \<Longrightarrow>
      handleAnalyze r s =
        (\<lparr>status = StatusOK, headers = [(''Content-Type'', ''application/json'')], body = v\<rparr>,
         s\<lparr>rdb := c\<rparr>)"
    and "Get (rdb s) redisLastKey = (Inl redis_Nil, c) \<Longrightarrow>
      handleAnalyze r s = (\<lparr>status = StatusNoContent, headers = [], body = []\<rparr>, s\<lparr>rdb := c\<rparr>)"
    and "Get (rdb s) redisLastKey = (Inl (RedisError e), c) \<Longrightarrow>
      handleAnalyze r s =
        (http_Error (''redis error: '' @ e) StatusServiceUnavailable, s\<lparr>rdb := c\<rparr>)"
  using assms by (simp_all add: handleAnalyze_def)

lemma handleAnalyze_found:
  assumes "Method r = ''GET''" and "faults (rdb s) (issued (rdb s)) = None"
    and "store (rdb s) redisLastKey = Some (RString v)"
  shows "fst (handleAnalyze r s) =
    \<lparr>status = 200, headers = [(''Content-Type'', ''application/json'')], body = v\<rparr>"
  using handleAnalyze_get(1)[OF _ Get_cases(3), of r s v] assms
  by (simp add: MethodGet_def StatusOK_def)


subsection \<open>The ingest handler and the decoder\<close>

lemma handleIngest_not_post:
  assumes "Method r \<noteq> MethodPost"
  shows "handleIngest L now r s =
    (http_Error ''POST only'' StatusMethodNotAllowed, s\<lparr>ingestLatency := ingestLatency s + 1\<rparr>)"
  using assms by (simp add: handleIngest_def Let_def)

lemma handleIngest_bad_json:
  assumes "Method r = MethodPost" and "Decode (ParseFloat L) (Body r) zero_Metric = None"
  shows "handleIngest L now r s =
    (http_Error (''bad json: '' @ ErrorText L (Body r)) StatusBadRequest,
     s\<lparr>ingestLatency := ingestLatency s + 1\<rparr>)"
  using assms by (simp add: handleIngest_def Let_def)

lemma handleIngest_admitted:
  assumes "Method r = MethodPost" and "Decode (ParseFloat L) (Body r) zero_Metric = Some m0"
    and "length (buf (metricsCh s)) < cap (metricsCh s)"
  shows "handleIngest L now r s =
    (\<lparr>status = StatusAccepted, headers = [(''Content-Type'', ''application/json'')],
      body = accepted_body\<rparr>,
     s\<lparr>ingestLatency := ingestLatency s + 1,
       metricsCh := (metricsCh s)\<lparr>buf := buf (metricsCh s) @
         [if Timestamp m0 = 0 then m0\<lparr>Timestamp := now\<rparr> else m0]\<rparr>,
       ingestTotal := ingestTotal s + 1\<rparr>)"
  using assms by (simp add: handleIngest_def Let_def)

lemma handleIngest_overloaded:
  assumes "Method r = MethodPost" and "Decode (ParseFloat L) (Body r) zero_Metric = Some m0"
    and "cap (metricsCh s) \<le> length (buf (metricsCh s))"
  shows "handleIngest L now r s =
    (http_Error ''overloaded'' StatusServiceUnavailable, s\<lparr>ingestLatency := ingestLatency s + 1\<rparr>)"
  using assms by (simp add: handleIngest_def Let_def)

lemma fold_cpu: "foldName ''cpu'' = ''CPU''" by code_simp
lemma fold_rps: "foldName ''rps'' = ''RPS''" by code_simp
lemma fold_timestamp: "foldName ''timestamp'' = ''TIMESTAMP''" by code_simp

lemma Decode_empty_object: "Decode P (Some (JObject [])) m = Some m"
  by simp

lemma Decode_cpu_rps:
  assumes "P lc = Some x" and "P lr = Some y"
  shows "Decode P (Some (JObject [(''cpu'', JNumber lc), (''rps'', JNumber lr)])) zero_Metric
    = Some \<lparr>Timestamp = 0, CPU = x, RPS = y\<rparr>"
  using assms by (simp add: fold_cpu fold_rps zero_Metric_def Let_def del: foldName.simps)

lemma handleIngest_status_400:
  assumes "Method r = ''POST''"
  shows "status (fst (handleIngest L now r s)) = 400 \<longleftrightarrow>
    Decode (ParseFloat L) (Body r) zero_Metric = None"
  using assms
  by (simp add: handleIngest_def Let_def MethodPost_def http_Error_def StatusBadRequest_def
      StatusAccepted_def StatusServiceUnavailable_def split: option.splits)


lemma decode_members_failed:
  "\<not> snd (decode_members P kvs m False)"
  by (induction kvs arbitrary: m)
     (auto simp: Let_def split: option.splits if_splits simp del: foldName.simps)

lemma decode_members_type_error:
  assumes "(k, v) \<in> set kvs" and "foldName k = ''CPU'' \<or> foldName k = ''RPS''"
    and "v \<noteq> JNull" and "\<forall>lit. v \<noteq> JNumber lit"
  shows "\<not> snd (decode_members P kvs m ok)"
  using assms(1)
proof (induction kvs arbitrary: m ok)
  case Nil
  then show ?case by simp
next
  case (Cons kv kvs)
  obtain k' v' where kv: "kv = (k', v')" by (cases kv)
  show ?case
  proof (cases "(k, v) = (k', v')")
    case True
    then have e: "k' = k" "v' = v" by simp_all
    have sf: "store_float P v x = None" for x
      using assms(3,4) by (cases v) simp_all
    show ?thesis
      using assms(2) sf decode_members_failed[of P kvs m]
      by (auto simp: kv e Let_def simp del: foldName.simps)
  next
    case False
    then have "(k, v) \<in> set kvs" using Cons.prems kv by auto
    then have "\<not> snd (decode_members P kvs m' ok')" for m' ok'
      using Cons.IH by blast
    then show ?thesis
      by (simp add: kv Let_def split: option.splits del: foldName.simps)
  qed
qed

lemma Decode_type_error:
  assumes "(k, v) \<in> set kvs" and "foldName k = ''CPU'' \<or> foldName k = ''RPS''"
    and "v \<noteq> JNull" and "\<forall>lit. v \<noteq> JNumber lit"
  shows "Decode P (Some (JObject kvs)) m = None"
  using decode_members_type_error[OF assms, of P m True]
  by (cases "decode_members P kvs m True") simp

lemma decode_members_no_field:
  assumes "\<forall>kv \<in> set kvs. foldName (fst kv) \<noteq> ''TIMESTAMP'' \<and> foldName (fst kv) \<noteq> ''CPU''
    \<and> foldName (fst kv) \<noteq> ''RPS''"
  shows "decode_members P kvs m ok = (m, ok)"
  using assms by (induction kvs arbitrary: m ok) (auto simp: Let_def simp del: foldName.simps)

lemma Decode_no_field:
  assumes "\<forall>kv \<in> set kvs. foldName (fst kv) \<noteq> ''TIMESTAMP'' \<and> foldName (fst kv) \<noteq> ''CPU''
    \<and> foldName (fst kv) \<noteq> ''RPS''"
  shows "Decode P (Some (JObject kvs)) m = Some m"
  by (simp add: decode_members_no_field[OF assms])

lemma handleIngest_decoded:
  assumes "Method r = ''POST''" and "Decode (ParseFloat L) (Body r) zero_Metric = Some m0"
  shows "status (fst (handleIngest L now r s)) =
      (if length (buf (metricsCh s)) < cap (metricsCh s) then 202 else 503)"
    and "buf (metricsCh (snd (handleIngest L now r s))) =
      (if length (buf (metricsCh s)) < cap (metricsCh s)
       then buf (metricsCh s) @ [m0\<lparr>Timestamp := (if Timestamp m0 = 0 then now else Timestamp m0)\<rparr>]
       else buf (metricsCh s))"
  using assms
  by (simp_all add: handleIngest_def Let_def MethodPost_def http_Error_def StatusAccepted_def
      StatusServiceUnavailable_def)

lemma plain_12: "ParseFloat_plain ''12'' = Some (Fin 3 2)" by code_simp
lemma plain_m5: "ParseFloat_plain ''-5'' = Some (Fin (- 5) 0)" by code_simp
lemma plain_1e9: "ParseFloat_plain ''1000000000'' = Some (Fin 1953125 9)" by code_simp

lemma ex_service_queue:
  "buf (metricsCh (ex_service xs f)) = []" "cap (metricsCh (ex_service xs f)) = 10000"
  "ingestTotal (ex_service xs f) = 0"
  by (simp_all add: ex_service_def NewService_def)

lemma ex_post_fields: "Method (ex_post j) = ''POST''" "Body (ex_post j) = j"
  by (simp_all add: ex_post_def)

lemma fold_host: "foldName ''host'' = ''HOST''" by code_simp


subsection \<open>Values of float64 numbers\<close>

lemma pow2_powi: "pow2 e = 2 powi e"
  by (simp add: pow2_def power_int_def inverse_eq_divide power_one_over)

lemma pow2_pos: "0 < pow2 e"
  by (simp add: pow2_powi)

lemma pow2_add: "pow2 (a + b) = pow2 a * pow2 b"
  by (simp add: pow2_powi power_int_add)

lemma pow2_diff: "pow2 (a - b) = pow2 a / pow2 b"
  by (simp add: pow2_powi power_int_diff)

lemma pow2_nat: "pow2 (int n) = 2 ^ n"
  by (simp add: pow2_def)

lemma pow2_mono: "a \<le> b \<Longrightarrow> pow2 a \<le> pow2 b"
  by (simp add: pow2_powi power_int_increasing)

lemma pow2_strict_mono: "a < b \<Longrightarrow> pow2 a < pow2 b"
  by (simp add: pow2_powi power_int_strict_increasing)

lemma shl_nonneg: "0 \<le> k \<Longrightarrow> shl a k = a * 2 ^ nat k"
  by (simp add: shl_def)

lemma shl_neg: "k < 0 \<Longrightarrow> shl a k = a"
  by (simp add: shl_def)

lemma of_int_shl: "0 \<le> k \<Longrightarrow> (of_int (shl a k) :: rat) = of_int a * pow2 k"
  by (simp add: shl_def pow2_def)

lemma shl_pos: "0 < b \<Longrightarrow> 0 < shl b k"
  by (simp add: shl_def)

lemma shl_ratio:
  assumes "0 < b"
  shows "(of_int (shl a (e - t)) :: rat) / of_int (shl b (t - e)) = of_int a / of_int b * pow2 (e - t)"
proof (cases "t \<le> e")
  case True
  then have "shl b (t - e) = b" by (cases "t = e") (simp_all add: shl_def)
  then show ?thesis using True by (simp add: of_int_shl)
next
  case False
  then have "shl a (e - t) = a" by (simp add: shl_def)
  moreover have "(of_int (shl b (t - e)) :: rat) = of_int b * pow2 (t - e)"
    using False by (simp add: of_int_shl)
  moreover have "pow2 (e - t) = 1 / pow2 (t - e)"
    using pow2_diff[of 0 "t - e"] by (simp add: pow2_def)
  ultimately show ?thesis by simp
qed







subsection \<open>Examples for the anomaly flag\<close>








subsection \<open>Rounding: when a result is exact, when it is finite\<close>

lemma pow2_ge0: "0 \<le> k \<Longrightarrow> pow2 k = 2 ^ nat k"
  by (simp add: pow2_def)

lemma pow2_Suc: "pow2 (k + 1) = 2 * pow2 k"
  using pow2_add[of k 1] by (simp add: pow2_def)

lemma pow2_le_iff: "pow2 a \<le> pow2 b \<longleftrightarrow> a \<le> b"
  using pow2_mono[of a b] pow2_strict_mono[of b a] by (auto simp: not_le[symmetric])

lemma pow2_less_iff: "pow2 a < pow2 b \<longleftrightarrow> a < b"
  using pow2_strict_mono[of a b] pow2_mono[of b a] by (auto simp: not_less[symmetric])

lemma bitlen_pow2_bounds:
  assumes "0 < x"
  shows "pow2 (bitlen x - 1) \<le> of_int x" and "of_int x < pow2 (bitlen x)"
proof -
  from assms have b1: "1 \<le> bitlen x" by (simp add: bitlen_ge_iff_power)
  from bitlen_bounds[OF assms]
  have l: "2 ^ nat (bitlen x - 1) \<le> x" and u: "x < 2 ^ nat (bitlen x)" by simp_all
  have "(of_int (2 ^ nat (bitlen x - 1)) :: rat) \<le> of_int x" using l by (simp only: of_int_le_iff)
  then show "pow2 (bitlen x - 1) \<le> of_int x" using b1 by (simp add: pow2_ge0)
  have "(of_int x :: rat) < of_int (2 ^ nat (bitlen x))" using u by (simp only: of_int_less_iff)
  then show "of_int x < pow2 (bitlen x)" using b1 by (simp add: pow2_ge0)
qed

lemma shl_test:
  "shl b d \<le> shl a (- d) \<longleftrightarrow> (of_int b :: rat) * pow2 d \<le> of_int a"
proof (cases "0 \<le> d")
  case True
  then have "shl a (- d) = a" by (cases "d = 0") (simp_all add: shl_def)
  moreover have "(of_int (shl b d) :: rat) = of_int b * pow2 d" using True by (rule of_int_shl)
  ultimately show ?thesis by (metis of_int_le_iff)
next
  case False
  then have sb: "shl b d = b" by (simp add: shl_def)
  have sa: "(of_int (shl a (- d)) :: rat) = of_int a * pow2 (- d)" using False by (simp add: of_int_shl)
  have p: "pow2 d * pow2 (- d) = 1" using pow2_add[of d "- d"] by (simp add: pow2_def)
  have "shl b d \<le> shl a (- d) \<longleftrightarrow> (of_int b :: rat) \<le> of_int a * pow2 (- d)"
    unfolding sb using sa by (metis of_int_le_iff)
  also have "\<dots> \<longleftrightarrow> (of_int b :: rat) * pow2 d \<le> of_int a * pow2 (- d) * pow2 d"
    using pow2_pos[of d] by simp
  also have "of_int a * pow2 (- d) * pow2 d = (of_int a :: rat)" using p by (simp add: mult.commute mult.left_commute)
  finally show ?thesis .
qed

lemma binade_bounds:
  assumes "a \<noteq> 0" and "0 < b"
  shows "pow2 (binade a b) \<le> \<bar>of_int a\<bar> / of_int b"
    and "\<bar>of_int a\<bar> / of_int b < pow2 (binade a b + 1)"
proof -
  define d where "d = bitlen \<bar>a\<bar> - bitlen b"
  have pa: "0 < \<bar>a\<bar>" using assms by simp
  have bq: "(0::rat) < of_int b" using assms by simp
  note A = bitlen_pow2_bounds[OF pa]
  note B = bitlen_pow2_bounds[OF assms(2)]
  have aa: "(of_int \<bar>a\<bar> :: rat) = \<bar>of_int a\<bar>" by simp
  have up: "\<bar>of_int a\<bar> / of_int b < pow2 (d + 1)"
  proof -
    have "\<bar>of_int a\<bar> / (of_int b :: rat) < pow2 (bitlen \<bar>a\<bar>) / of_int b"
      using A(2) bq by (simp add: divide_strict_right_mono aa)
    also have "\<dots> \<le> pow2 (bitlen \<bar>a\<bar>) / pow2 (bitlen b - 1)"
      using B(1) pow2_pos[of "bitlen b - 1"] pow2_pos[of "bitlen \<bar>a\<bar>"]
      by (intro divide_left_mono) (simp_all add: less_imp_le bq)
    also have "\<dots> = pow2 (d + 1)"
      using pow2_diff[of "bitlen \<bar>a\<bar>" "bitlen b - 1"] by (simp add: d_def algebra_simps)
    finally show ?thesis .
  qed
  have lo: "pow2 (d - 1) < \<bar>of_int a\<bar> / of_int b"
  proof -
    have "pow2 (d - 1) = pow2 (bitlen \<bar>a\<bar> - 1) / pow2 (bitlen b)"
      using pow2_diff[of "bitlen \<bar>a\<bar> - 1" "bitlen b"] by (simp add: d_def algebra_simps)
    also have "\<dots> \<le> \<bar>of_int a\<bar> / pow2 (bitlen b)"
      using A(1) pow2_pos[of "bitlen b"] by (simp add: divide_right_mono aa less_imp_le)
    also have "\<dots> < \<bar>of_int a\<bar> / of_int b"
      using B(2) bq assms(1) by (intro divide_strict_left_mono) simp_all
    finally show ?thesis .
  qed
  have test: "shl b d \<le> shl \<bar>a\<bar> (- d) \<longleftrightarrow> pow2 d \<le> \<bar>of_int a\<bar> / of_int b"
    unfolding shl_test using bq by (simp add: pos_le_divide_eq aa mult.commute)
  have bd: "binade a b = (if pow2 d \<le> \<bar>of_int a\<bar> / of_int b then d else d - 1)"
    unfolding binade_def Let_def d_def[symmetric] test ..
  show "pow2 (binade a b) \<le> \<bar>of_int a\<bar> / of_int b"
    unfolding bd using lo by (simp add: less_imp_le)
  show "\<bar>of_int a\<bar> / of_int b < pow2 (binade a b + 1)"
    unfolding bd using up by (simp add: not_le)
qed


lemma rne_div_exact:
  assumes "0 < b"
  shows "rne_div (n * b) b = n"
  using assms by (simp add: rne_div_def Let_def)

lemma canon_scale: "canon (m * 2 ^ j) e = canon m (e + int j)"
proof (induction j arbitrary: e)
  case 0
  then show ?case by simp
next
  case (Suc j)
  show ?case
  proof (cases "m = 0")
    case True
    then show ?thesis by (simp add: canon.simps)
  next
    case False
    have "canon (m * 2 ^ Suc j) e = canon (m * 2 ^ Suc j div 2) (e + 1)"
      using False by (subst canon.simps) simp
    also have "m * 2 ^ Suc j div 2 = m * 2 ^ j" by simp
    also have "canon (m * 2 ^ j) (e + 1) = canon m (e + 1 + int j)" by (rule Suc.IH)
    also have "e + 1 + int j = e + int (Suc j)" by simp
    finally show ?thesis .
  qed
qed

lemma valof_canon: "valof (canon m e) = of_int m * pow2 e"
proof (induction m e rule: canon.induct)
  case (1 m e)
  show ?case
  proof (cases "m = 0")
    case True
    then show ?thesis by (simp add: canon.simps)
  next
    case nz: False
    show ?thesis
    proof (cases "even m")
      case True
      then obtain k where k: "m = 2 * k" by (elim evenE)
      have "valof (canon m e) = valof (canon (m div 2) (e + 1))"
        using nz True by (subst canon.simps) simp
      also have "\<dots> = of_int (m div 2) * pow2 (e + 1)" using 1 nz True by simp
      also have "\<dots> = of_int m * pow2 e" by (simp add: k pow2_Suc)
      finally show ?thesis .
    next
      case False
      then show ?thesis using nz by (subst canon.simps) simp
    qed
  qed
qed


lemma round_frac_scaled:
  assumes "0 < b"
  shows "(of_int (shl a (e - t)) :: rat) = of_int a / of_int b * pow2 e * pow2 (- t) * of_int (shl b (t - e))"
proof -
  have p: "0 < shl b (t - e)" using assms by (rule shl_pos)
  have "(of_int (shl a (e - t)) :: rat) / of_int (shl b (t - e)) = of_int a / of_int b * pow2 (e - t)"
    by (rule shl_ratio[OF assms])
  also have "pow2 (e - t) = pow2 e * pow2 (- t)" using pow2_add[of e "- t"] by simp
  finally have "(of_int (shl a (e - t)) :: rat) / of_int (shl b (t - e))
      = of_int a / of_int b * pow2 e * pow2 (- t)" by (simp add: mult.assoc)
  then show ?thesis using p by (simp add: field_simps)
qed

lemma scaled_bounds:
  assumes "a \<noteq> 0" and "0 < b"
  shows "pow2 (binade a b + e) \<le> \<bar>of_int a\<bar> / of_int b * pow2 e"
    and "\<bar>of_int a\<bar> / of_int b * pow2 e < pow2 (binade a b + 1 + e)"
proof -
  have "pow2 (binade a b) * pow2 e \<le> \<bar>of_int a\<bar> / of_int b * pow2 e"
    by (rule mult_right_mono[OF binade_bounds(1)[OF assms]]) (simp add: pow2_pos less_imp_le)
  then show "pow2 (binade a b + e) \<le> \<bar>of_int a\<bar> / of_int b * pow2 e"
    by (simp only: pow2_add)
  have "\<bar>of_int a\<bar> / of_int b * pow2 e < pow2 (binade a b + 1) * pow2 e"
    by (rule mult_strict_right_mono[OF binade_bounds(2)[OF assms]]) (rule pow2_pos)
  then show "\<bar>of_int a\<bar> / of_int b * pow2 e < pow2 (binade a b + 1 + e)"
    by (simp only: pow2_add)
qed

lemma round_frac_exact:
  assumes a: "a \<noteq> 0" and b: "0 < b"
    and v: "of_int a / of_int b * pow2 e = of_int m * pow2 q"
    and m: "\<bar>m\<bar> < 2 ^ 53" and q: "- 1074 \<le> q"
    and r: "\<bar>of_int m\<bar> * pow2 q < pow2 1024"
  shows "round_frac a b e = canon m q"
proof -
  define k where "k = binade a b"
  define t where "t = max (k + e - 52) (- 1074)"
  define j where "j = nat (q - t)"
  define N where "N = m * 2 ^ j"
  have bq: "(0::rat) < of_int b" using b by simp
  have m0: "m \<noteq> 0"
  proof
    assume "m = 0"
    then have "of_int a / of_int b * pow2 e = (0::rat)" using v by simp
    then show False using a bq pow2_pos[of e] by simp
  qed
  have av: "\<bar>of_int a\<bar> / of_int b * pow2 e = \<bar>of_int m :: rat\<bar> * pow2 q"
  proof -
    have "\<bar>of_int a / of_int b * pow2 e\<bar> = \<bar>(of_int m :: rat) * pow2 q\<bar>" using v by simp
    then show ?thesis using bq pow2_pos[of e] pow2_pos[of q]
      by (simp add: abs_mult less_imp_le)
  qed
  have "pow2 (k + e) \<le> \<bar>of_int a\<bar> / of_int b * pow2 e"
    unfolding k_def by (rule scaled_bounds(1)[OF a b])
  also have "\<dots> = \<bar>of_int m :: rat\<bar> * pow2 q" by (rule av)
  also have "\<dots> < 2 ^ 53 * pow2 q"
  proof -
    have "(of_int \<bar>m\<bar> :: rat) < of_int (2 ^ 53)" using m by (simp only: of_int_less_iff)
    then have "\<bar>of_int m :: rat\<bar> < 2 ^ 53" by simp
    then show ?thesis using pow2_pos[of q] by (simp add: mult_strict_right_mono)
  qed
  also have "\<dots> = pow2 (53 + q)" using pow2_add[of 53 q] by (simp add: pow2_def)
  finally have "k + e < 53 + q" by (simp add: pow2_less_iff)
  then have tq: "t \<le> q" using q by (simp add: t_def)
  have jq: "int j = q - t" using tq by (simp add: j_def)
  have q1024: "q < 1024"
  proof -
    have "1 \<le> \<bar>m\<bar>" using m0 by simp
    then have "(of_int 1 :: rat) \<le> of_int \<bar>m\<bar>" by (simp only: of_int_le_iff)
    then have "(1::rat) \<le> \<bar>of_int m\<bar>" by simp
    then have "pow2 q \<le> \<bar>of_int m\<bar> * pow2 q"
      using pow2_pos[of q] by (simp add: mult_right_mono less_imp_le)
    with r have "pow2 q < pow2 1024" by simp
    then show ?thesis by (simp add: pow2_less_iff)
  qed
  have Nq: "(of_int N :: rat) = of_int m * pow2 q * pow2 (- t)"
  proof -
    have "pow2 (q - t) = pow2 q * pow2 (- t)" using pow2_add[of q "- t"] by simp
    moreover have "pow2 (q - t) = 2 ^ j" using tq by (simp add: pow2_def j_def)
    ultimately show ?thesis by (simp add: N_def mult.assoc)
  qed
  have sh: "shl a (e - t) = N * shl b (t - e)"
  proof -
    have "(of_int (shl a (e - t)) :: rat) = of_int N * of_int (shl b (t - e))"
      unfolding round_frac_scaled[OF b, of a e t] v Nq ..
    then have "(of_int (shl a (e - t)) :: rat) = of_int (N * shl b (t - e))" by simp
    then show ?thesis by (simp only: of_int_eq_iff)
  qed
  have n: "rne_div (shl a (e - t)) (shl b (t - e)) = N"
    unfolding sh by (rule rne_div_exact[OF shl_pos[OF b]])
  have N0: "N \<noteq> 0" using m0 by (simp add: N_def)
  have nov: "\<not> 1024 < bitlen \<bar>N\<bar> + t"
  proof -
    have "(of_int \<bar>N\<bar> :: rat) = \<bar>of_int N\<bar>" by simp
    also have "\<dots> = \<bar>of_int m * pow2 q * pow2 (- t)\<bar>" by (simp only: Nq)
    also have "\<dots> = \<bar>of_int m\<bar> * pow2 q * pow2 (- t)"
      using pow2_pos[of q] pow2_pos[of "- t"] by (simp add: abs_mult less_imp_le)
    also have "\<dots> < pow2 1024 * pow2 (- t)"
      using r pow2_pos[of "- t"] by (simp add: mult_strict_right_mono)
    also have "\<dots> = pow2 (1024 - t)" using pow2_add[of 1024 "- t"] by simp
    also have "\<dots> = of_int (2 ^ nat (1024 - t))" using tq q1024 by (simp add: pow2_def)
    finally have "\<bar>N\<bar> < 2 ^ nat (1024 - t)" by (simp only: of_int_less_iff)
    then have "bitlen \<bar>N\<bar> \<le> 1024 - t" using tq q1024 by (simp add: bitlen_le_iff_power)
    then show ?thesis by simp
  qed
  have "round_frac a b e = canon N t"
    using a N0 nov
    by (simp add: round_frac_def Let_def k_def[symmetric] t_def[symmetric] n)
  also have "\<dots> = canon m (t + int j)" unfolding N_def by (rule canon_scale)
  also have "t + int j = q" using jq by simp
  finally show ?thesis .
qed



lemma valof_fneg: "valof (fneg x) = - valof x"
  by (cases x) (simp_all add: PZero_def)



lemma valof_signed_zero: "valof (signed s PZero) = 0"
  by (simp add: signed_def valof_fneg PZero_def)












section \<open>The claims\<close>

text \<open>
  Claim C1, as amended. For the statistics \<open>a\<close> of any iteration: with no valid sample
  the mean, the standard deviation and the z-score are \<open>+0\<close> and the sample is no
  anomaly; with one valid sample the z-score is \<open>+0\<close>, whatever the triggering RPS; and
  for \<open>k > 1\<close> copies of a finite value \<open>v\<close> with triggering RPS \<open>v\<close>, the standard
  deviation and the z-score are \<open>+0\<close> provided the mean of the copies is computed
  exactly, that is, equals \<open>v\<close>.
\<close>

theorem C1_degenerate_windows:
  "let a = compute P values m now in
     (Count a = 0 \<longrightarrow> RollingAvg a = PZero \<and> StdDev a = PZero \<and> ZScore a = PZero \<and> \<not> IsAnomaly a) \<and>
     (Count a = 1 \<longrightarrow> ZScore a = PZero) \<and>
     (\<forall>k v. 1 < k \<and> List.map_filter P values = replicate k v \<and> RPS m = v \<and>
            is_finite v \<and> is_f64 v \<and> RollingAvg a = v \<longrightarrow>
            StdDev a = PZero \<and> ZScore a = PZero \<and> \<not> IsAnomaly a)"
proof -
  let ?a = "compute P values m now"
  have e: "Count ?a = 0 \<longrightarrow>
      RollingAvg ?a = PZero \<and> StdDev ?a = PZero \<and> ZScore ?a = PZero \<and> \<not> IsAnomaly ?a"
    using stats_empty by blast
  have s: "Count ?a = 1 \<longrightarrow> ZScore ?a = PZero"
    using stats_single by blast
  have i: "\<forall>k v. 1 < k \<and> List.map_filter P values = replicate k v \<and> RPS m = v \<and>
            is_finite v \<and> is_f64 v \<and> RollingAvg ?a = v \<longrightarrow>
            StdDev ?a = PZero \<and> ZScore ?a = PZero \<and> \<not> IsAnomaly ?a"
    using stats_identical by blast
  from e s i show ?thesis unfolding Let_def by (intro conjI)
qed

theorem C1_degenerate_windows_witness:
  "Count (compute ParseFloat_plain [''abc''] \<lparr>Timestamp = 0, CPU = Fin 3 2, RPS = Fin 15 3\<rparr> 0) = 0 \<and>
   StdDev (compute ParseFloat_plain [''abc''] \<lparr>Timestamp = 0, CPU = Fin 3 2, RPS = Fin 15 3\<rparr> 0) = PZero \<and>
   \<not> IsAnomaly (compute ParseFloat_plain [''abc''] \<lparr>Timestamp = 0, CPU = Fin 3 2, RPS = Fin 15 3\<rparr> 0) \<and>
   Count (compute ParseFloat_plain [''7''] \<lparr>Timestamp = 0, CPU = Fin 3 2, RPS = Fin 15 3\<rparr> 0) = 1 \<and>
   ZScore (compute ParseFloat_plain [''7''] \<lparr>Timestamp = 0, CPU = Fin 3 2, RPS = Fin 15 3\<rparr> 0) = PZero \<and>
   List.map_filter ParseFloat_plain [''120'', ''n/a'', ''120'', ''120''] = replicate 3 (Fin 15 3) \<and>
   is_finite (Fin 15 3) \<and> is_f64 (Fin 15 3) \<and>
   RollingAvg (compute ParseFloat_plain [''120'', ''n/a'', ''120'', ''120'']
     \<lparr>Timestamp = 0, CPU = Fin 3 2, RPS = Fin 15 3\<rparr> 0) = Fin 15 3 \<and>
   StdDev (compute ParseFloat_plain [''120'', ''n/a'', ''120'', ''120'']
     \<lparr>Timestamp = 0, CPU = Fin 3 2, RPS = Fin 15 3\<rparr> 0) = PZero \<and>
   ZScore (compute ParseFloat_plain [''120'', ''n/a'', ''120'', ''120'']
     \<lparr>Timestamp = 0, CPU = Fin 3 2, RPS = Fin 15 3\<rparr> 0) = PZero"
proof -
  let ?m = "\<lparr>Timestamp = 0, CPU = Fin 3 2, RPS = Fin 15 3\<rparr>"
  let ?w = "[''120'', ''n/a'', ''120'', ''120'']"
  have c0: "Count (compute ParseFloat_plain [''abc''] ?m 0) = 0"
    by (simp add: compute_unfold Let_def List.map_filter_simps plain_abc)
  have c1: "Count (compute ParseFloat_plain [''7''] ?m 0) = 1"
    by (simp add: compute_unfold Let_def List.map_filter_simps plain_7)
  have nums: "List.map_filter ParseFloat_plain ?w = replicate 3 (Fin 15 3)"
    by (simp add: List.map_filter_simps plain_120 plain_na numeral_3_eq_3)
  have mu: "fdiv (foldl fadd PZero (replicate 3 (Fin 15 3))) (float64_of_int 3) = Fin 15 3"
    by code_simp
  have mean: "RollingAvg (compute ParseFloat_plain ?w ?m 0) = Fin 15 3"
    unfolding compute_unfold Let_def nums by (simp add: mean_stddev_def Let_def mu)
  have fin: "is_finite (Fin 15 3)" "is_f64 (Fin 15 3)" by code_simp+
  have k: "(1::nat) < 3" by simp
  have rps: "RPS ?m = Fin 15 3" by simp
  note t0 = C1_degenerate_windows[of ParseFloat_plain "[''abc'']" ?m 0, unfolded Let_def]
  note t1 = C1_degenerate_windows[of ParseFloat_plain "[''7'']" ?m 0, unfolded Let_def]
  note t3 = C1_degenerate_windows[of ParseFloat_plain ?w ?m 0, unfolded Let_def]
  from t0 c0 have r0: "StdDev (compute ParseFloat_plain [''abc''] ?m 0) = PZero"
    "\<not> IsAnomaly (compute ParseFloat_plain [''abc''] ?m 0)" by blast+
  from t1 c1 have r1: "ZScore (compute ParseFloat_plain [''7''] ?m 0) = PZero" by blast
  from t3 have "1 < (3::nat) \<and> List.map_filter ParseFloat_plain ?w = replicate 3 (Fin 15 3) \<and>
      RPS ?m = Fin 15 3 \<and> is_finite (Fin 15 3) \<and> is_f64 (Fin 15 3) \<and>
      RollingAvg (compute ParseFloat_plain ?w ?m 0) = Fin 15 3 \<longrightarrow>
      StdDev (compute ParseFloat_plain ?w ?m 0) = PZero \<and>
      ZScore (compute ParseFloat_plain ?w ?m 0) = PZero \<and>
      \<not> IsAnomaly (compute ParseFloat_plain ?w ?m 0)"
    by blast
  with k nums rps fin mean have r3: "StdDev (compute ParseFloat_plain ?w ?m 0) = PZero"
    "ZScore (compute ParseFloat_plain ?w ?m 0) = PZero"
    by blast+
  from c0 r0 c1 r1 nums fin mean r3 show ?thesis by (intro conjI)
qed

text \<open>
  Without that proviso the third part fails: three copies of 0.1 sum to
  0.30000000000000004, the mean is \<^verbatim>\<open>0.1 + 2^-56\<close>, and the iteration reports the
  standard deviation \<^verbatim>\<open>2^-56\<close> and the z-score -1.
\<close>

theorem C1_identical_values_counterexample:
  "List.map_filter ParseFloat_plain [''0.1'', ''0.1'', ''0.1''] = replicate 3 (Fin 3602879701896397 (- 55)) \<and>
   StdDev (compute ParseFloat_plain [''0.1'', ''0.1'', ''0.1'']
     \<lparr>Timestamp = 0, CPU = PZero, RPS = Fin 3602879701896397 (- 55)\<rparr> 0) = Fin 1 (- 56) \<and>
   ZScore (compute ParseFloat_plain [''0.1'', ''0.1'', ''0.1'']
     \<lparr>Timestamp = 0, CPU = PZero, RPS = Fin 3602879701896397 (- 55)\<rparr> 0) = Fin (- 1) 0"
proof -
  let ?v = "Fin 3602879701896397 (- 55)"
  let ?mu = "Fin 7205759403792795 (- 56)"
  let ?m = "\<lparr>Timestamp = 0, CPU = PZero, RPS = ?v\<rparr>"
  have nums: "List.map_filter ParseFloat_plain [''0.1'', ''0.1'', ''0.1''] = [?v, ?v, ?v]"
    by (simp add: List.map_filter_simps plain_01)
  have ms: "mean_stddev [?v, ?v, ?v] (foldl fadd PZero [?v, ?v, ?v]) = (?mu, Fin 1 (- 56))"
    by code_simp
  have z: "zscore (int (length [?v, ?v, ?v])) (RPS ?m) ?mu (Fin 1 (- 56)) = Fin (- 1) 0"
    by code_simp
  have nums': "List.map_filter ParseFloat_plain [''0.1'', ''0.1'', ''0.1''] = replicate 3 ?v"
    unfolding nums by (simp add: numeral_3_eq_3)
  show ?thesis
    by (intro conjI, rule nums') (simp_all add: compute_fields[OF nums ms z])
qed






text \<open>
  Claim C8. The parse loop keeps exactly the entries that parse, in order, and sums
  them; the count is the number of those entries; and the whole analysis is the one
  computed from the snapshot with the unparsable entries removed.
\<close>

theorem C8_unparsable_entries_skipped:
  "parse_loop P values [] PZero =
     (map (\<lambda>v. the (P v)) (filter (\<lambda>v. P v \<noteq> None) values),
      fsum (map (\<lambda>v. the (P v)) (filter (\<lambda>v. P v \<noteq> None) values))) \<and>
   Count (compute P values m now) = int (length (filter (\<lambda>v. P v \<noteq> None) values)) \<and>
   compute P values m now = compute P (filter (\<lambda>v. P v \<noteq> None) values) m now"
  by (simp add: parse_loop_eq compute_unfold map_filter_filter Let_def fsum_def
      List.map_filter_def comp_def)

text \<open>
  Claim C9. Whatever was pushed to the window, and in whatever state the store is, a
  trim to the indices 0 to W - 1 followed by a read of the same range yields at most
  W = 50 entries; the snapshot an iteration computes its statistics over, and hence its
  count, is therefore at most 50.
\<close>

theorem C9_window_bound:
  "(LTrim (foldl (\<lambda>c v. snd (LPush c redisWindowKey v)) c0 pushed) redisWindowKey 0 (windowSize - 1)
        = (Inr u, c1) \<and>
    LRange c1 redisWindowKey 0 (windowSize - 1) = (Inr vs, c2) \<longrightarrow> length vs \<le> 50) \<and>
   (LRange c redisWindowKey 0 (windowSize - 1) = (Inr vals, c3) \<longrightarrow>
      length vals \<le> 50 \<and> Count (compute P vals m now) \<le> 50) \<and>
   windowSize = 50"
proof -
  have a: "LRange c1 redisWindowKey 0 (windowSize - 1) = (Inr vs, c2) \<longrightarrow> length vs \<le> 50"
    using LRange_window_length by blast
  have b: "LRange c redisWindowKey 0 (windowSize - 1) = (Inr vals, c3) \<longrightarrow>
      length vals \<le> 50 \<and> Count (compute P vals m now) \<le> 50"
  proof
    assume h: "LRange c redisWindowKey 0 (windowSize - 1) = (Inr vals, c3)"
    have l: "length vals \<le> 50" by (rule LRange_window_length[OF h])
    moreover have "Count (compute P vals m now) \<le> int (length vals)" by (rule Count_le_length)
    ultimately show "length vals \<le> 50 \<and> Count (compute P vals m now) \<le> 50" by simp
  qed
  from a b show ?thesis by (simp add: windowSize_def)
qed

theorem C9_window_bound_witness:
  "LTrim (foldl (\<lambda>c v. snd (LPush c redisWindowKey v))
            (rdb (ex_service (replicate 50 ''7'') no_faults)) [''8'', ''9''])
      redisWindowKey 0 (windowSize - 1)
     = (Inr (), after_trim (after_push (rdb (ex_service (replicate 50 ''7'') no_faults)) ''8'') ''9'') \<and>
   LRange (after_trim (after_push (rdb (ex_service (replicate 50 ''7'') no_faults)) ''8'') ''9'')
      redisWindowKey 0 (windowSize - 1)
     = (Inr (''9'' # ''8'' # replicate 48 ''7''),
        after_read (after_push (rdb (ex_service (replicate 50 ''7'') no_faults)) ''8'') ''9'') \<and>
   length (''9'' # ''8'' # replicate 48 ''7'') \<le> 50 \<and>
   Count (compute ParseFloat_plain (''9'' # ''8'' # replicate 48 ''7'') ex_sample 0) \<le> 50"
proof -
  let ?c0 = "rdb (ex_service (replicate 50 ''7'') no_faults)"
  let ?X = "after_push ?c0 ''8''"
  let ?vs = "''9'' # ''8'' # replicate 48 ''7''"
  have nf0: "\<And>k. faults ?c0 k = None" by (simp add: ex_rdb no_faults_def)
  have nfX: "\<And>k. faults ?X k = None" by (simp add: after_push_fields nf0)
  have a: "LPush ?c0 redisWindowKey ''8'' = (Inr (int (length (window_of ?c0)) + 1), ?X)"
    by (rule push_step[OF nf0 ex_rdb(5)])
  have b: "LPush ?X redisWindowKey ''9'' = (Inr (int (length (window_of ?X)) + 1), after_push ?X ''9'')"
    by (rule push_step[OF nfX after_push_fields(4)])
  have f: "foldl (\<lambda>c v. snd (LPush c redisWindowKey v)) ?c0 [''8'', ''9''] = after_push ?X ''9''"
    by (simp add: a b)
  have h1: "LTrim (foldl (\<lambda>c v. snd (LPush c redisWindowKey v)) ?c0 [''8'', ''9''])
      redisWindowKey 0 (windowSize - 1) = (Inr (), after_trim ?X ''9'')"
    unfolding f by (rule trim_step[OF nfX])
  have tk: "take 50 (''9'' # window_of ?X) = ?vs"
    by (simp add: after_push_fields ex_rdb)
  have h2: "LRange (after_trim ?X ''9'') redisWindowKey 0 (windowSize - 1) = (Inr ?vs, after_read ?X ''9'')"
    using read_step[OF nfX, where v = "''9''"] unfolding tk .
  note t = C9_window_bound[where ?c0.0 = ?c0 and pushed = "[''8'', ''9'']" and u = "()"
      and ?c1.0 = "after_trim ?X ''9''" and vs = ?vs and ?c2.0 = "after_read ?X ''9''"
      and c = "after_trim ?X ''9''" and vals = ?vs and ?c3.0 = "after_read ?X ''9''"
      and P = ParseFloat_plain and m = ex_sample and now = 0]
  from t h1 h2 have r: "length ?vs \<le> 50" "Count (compute ParseFloat_plain ?vs ex_sample 0) \<le> 50"
    by blast+
  from h1 h2 r show ?thesis by (intro conjI)
qed

text \<open>
  Claim C6, as amended. When the push, the trim or the read fails, the failure is
  logged with the worker's identity and nothing else happens in the iteration: no later
  command is sent to the store, and the gauges and the result stay as they were. When
  the persist fails, the failure is logged with the worker's identity and nothing is
  stored, but the gauges are updated from the computed analysis all the same. In every
  case the sample is neither retried nor queued again, and the worker goes on with the
  next sample.
\<close>

theorem C6_store_failures:
  "(LPush (rdb s) redisWindowKey (FormatFloat L (RPS m)) = (Inl e1, c1) \<longrightarrow>
      worker_iter L wid now m s =
        s\<lparr>rdb := c1,
          logs := logs s @ [''[worker '' @ Itoa wid @ ''] redis LPUSH error: '' @ Error e1]\<rparr> \<and>
      store c1 = store (rdb s) \<and> issued c1 = issued (rdb s) + 1) \<and>
   (LPush (rdb s) redisWindowKey (FormatFloat L (RPS m)) = (Inr n, c1) \<and>
    LTrim c1 redisWindowKey 0 (windowSize - 1) = (Inl e2, c2) \<longrightarrow>
      worker_iter L wid now m s =
        s\<lparr>rdb := c2,
          logs := logs s @ [''[worker '' @ Itoa wid @ ''] redis LTRIM error: '' @ Error e2]\<rparr> \<and>
      store c2 = store c1 \<and> issued c2 = issued (rdb s) + 2) \<and>
   (LPush (rdb s) redisWindowKey (FormatFloat L (RPS m)) = (Inr n, c1) \<and>
    LTrim c1 redisWindowKey 0 (windowSize - 1) = (Inr u, c2) \<and>
    LRange c2 redisWindowKey 0 (windowSize - 1) = (Inl e3, c3) \<longrightarrow>
      worker_iter L wid now m s =
        s\<lparr>rdb := c3,
          logs := logs s @ [''[worker '' @ Itoa wid @ ''] redis LRANGE error: '' @ Error e3]\<rparr> \<and>
      store c3 = store c2 \<and> issued c3 = issued (rdb s) + 3) \<and>
   (LPush (rdb s) redisWindowKey (FormatFloat L (RPS m)) = (Inr n, c1) \<and>
    LTrim c1 redisWindowKey 0 (windowSize - 1) = (Inr u, c2) \<and>
    LRange c2 redisWindowKey 0 (windowSize - 1) = (Inr vals, c3) \<and>
    Set c3 redisLastKey
      (case Marshal L (compute (ParseFloat L) vals m now) of Some bs \<Rightarrow> bs | None \<Rightarrow> [])
      = (Inl e4, c4) \<longrightarrow>
      worker_iter L wid now m s =
        s\<lparr>rdb := c4,
          logs := logs s @
            [''[worker '' @ Itoa wid @ ''] redis SET last_analysis error: '' @ Error e4],
          currentRollingAvg := RollingAvg (compute (ParseFloat L) vals m now),
          anomalyTotal := (if IsAnomaly (compute (ParseFloat L) vals m now)
                           then anomalyTotal s + 1 else anomalyTotal s),
          anomalyRate := (if IsAnomaly (compute (ParseFloat L) vals m now)
                          then Fin 1 0 else PZero)\<rparr> \<and>
      store c4 = store c3 \<and> issued c4 = issued (rdb s) + 4) \<and>
   worker L wid ((m, now) # ms) s = worker L wid ms (worker_iter L wid now m s)"
proof -
  let ?v = "FormatFloat L (RPS m)"
  let ?a = "compute (ParseFloat L) vals m now"
  have p1: "LPush (rdb s) redisWindowKey ?v = (Inl e1, c1) \<longrightarrow>
      worker_iter L wid now m s =
        s\<lparr>rdb := c1,
          logs := logs s @ [''[worker '' @ Itoa wid @ ''] redis LPUSH error: '' @ Error e1]\<rparr> \<and>
      store c1 = store (rdb s) \<and> issued c1 = issued (rdb s) + 1"
    using worker_iter_push_fails[of s L m e1 c1 wid now] LPush_fail[of "rdb s" redisWindowKey "?v" e1 c1]
      LPush_issued(1)[of "rdb s" redisWindowKey "?v" "Inl e1" c1]
    by (simp add: logline_text)
  have p2: "LPush (rdb s) redisWindowKey ?v = (Inr n, c1) \<and>
    LTrim c1 redisWindowKey 0 (windowSize - 1) = (Inl e2, c2) \<longrightarrow>
      worker_iter L wid now m s =
        s\<lparr>rdb := c2,
          logs := logs s @ [''[worker '' @ Itoa wid @ ''] redis LTRIM error: '' @ Error e2]\<rparr> \<and>
      store c2 = store c1 \<and> issued c2 = issued (rdb s) + 2"
    using worker_iter_trim_fails[of s L m n c1 e2 c2 wid now]
      LTrim_fail[of c1 redisWindowKey 0 "windowSize - 1" e2 c2]
      LPush_issued(1)[of "rdb s" redisWindowKey "?v" "Inr n" c1]
      LTrim_issued(1)[of c1 redisWindowKey 0 "windowSize - 1" "Inl e2" c2]
    by (simp add: logline_text)
  have p3: "LPush (rdb s) redisWindowKey ?v = (Inr n, c1) \<and>
    LTrim c1 redisWindowKey 0 (windowSize - 1) = (Inr u, c2) \<and>
    LRange c2 redisWindowKey 0 (windowSize - 1) = (Inl e3, c3) \<longrightarrow>
      worker_iter L wid now m s =
        s\<lparr>rdb := c3,
          logs := logs s @ [''[worker '' @ Itoa wid @ ''] redis LRANGE error: '' @ Error e3]\<rparr> \<and>
      store c3 = store c2 \<and> issued c3 = issued (rdb s) + 3"
    using worker_iter_range_fails[of s L m n c1 u c2 e3 c3 wid now]
      LPush_issued(1)[of "rdb s" redisWindowKey "?v" "Inr n" c1]
      LTrim_issued(1)[of c1 redisWindowKey 0 "windowSize - 1" "Inr u" c2]
      LRange_issued(1,3)[of c2 redisWindowKey 0 "windowSize - 1" "Inl e3" c3]
    by (simp add: logline_text)
  have p4: "LPush (rdb s) redisWindowKey ?v = (Inr n, c1) \<and>
    LTrim c1 redisWindowKey 0 (windowSize - 1) = (Inr u, c2) \<and>
    LRange c2 redisWindowKey 0 (windowSize - 1) = (Inr vals, c3) \<and>
    Set c3 redisLastKey (case Marshal L ?a of Some bs \<Rightarrow> bs | None \<Rightarrow> []) = (Inl e4, c4) \<longrightarrow>
      worker_iter L wid now m s =
        s\<lparr>rdb := c4,
          logs := logs s @
            [''[worker '' @ Itoa wid @ ''] redis SET last_analysis error: '' @ Error e4],
          currentRollingAvg := RollingAvg ?a,
          anomalyTotal := (if IsAnomaly ?a then anomalyTotal s + 1 else anomalyTotal s),
          anomalyRate := (if IsAnomaly ?a then Fin 1 0 else PZero)\<rparr> \<and>
      store c4 = store c3 \<and> issued c4 = issued (rdb s) + 4"
  proof
    assume h: "LPush (rdb s) redisWindowKey ?v = (Inr n, c1) \<and>
      LTrim c1 redisWindowKey 0 (windowSize - 1) = (Inr u, c2) \<and>
      LRange c2 redisWindowKey 0 (windowSize - 1) = (Inr vals, c3) \<and>
      Set c3 redisLastKey (case Marshal L ?a of Some bs \<Rightarrow> bs | None \<Rightarrow> []) = (Inl e4, c4)"
    then have h1: "LPush (rdb s) redisWindowKey ?v = (Inr n, c1)"
      and h2: "LTrim c1 redisWindowKey 0 (windowSize - 1) = (Inr u, c2)"
      and h3: "LRange c2 redisWindowKey 0 (windowSize - 1) = (Inr vals, c3)"
      and h4: "Set c3 redisLastKey (case Marshal L ?a of Some bs \<Rightarrow> bs | None \<Rightarrow> []) = (Inl e4, c4)"
      by simp_all
    have w: "worker_iter L wid now m s = persist_and_observe L wid ?a c3 s"
      by (rule worker_iter_computes[OF h1 h2 h3])
    have i: "issued c4 = issued (rdb s) + 4"
      using LPush_issued(1)[OF h1] LTrim_issued(1)[OF h2] LRange_issued(1)[OF h3]
        Set_issued(1)[OF h4] by simp
    show "worker_iter L wid now m s =
        s\<lparr>rdb := c4,
          logs := logs s @
            [''[worker '' @ Itoa wid @ ''] redis SET last_analysis error: '' @ Error e4],
          currentRollingAvg := RollingAvg ?a,
          anomalyTotal := (if IsAnomaly ?a then anomalyTotal s + 1 else anomalyTotal s),
          anomalyRate := (if IsAnomaly ?a then Fin 1 0 else PZero)\<rparr> \<and>
      store c4 = store c3 \<and> issued c4 = issued (rdb s) + 4"
      unfolding w persist_fails[OF h4] using Set_fail[OF h4] i by (simp add: logline_text)
  qed
  have p5: "worker L wid ((m, now) # ms) s = worker L wid ms (worker_iter L wid now m s)"
    by simp
  from p1 p2 p3 p4 p5 show ?thesis by (intro conjI)
qed

theorem C6_store_failures_witness:
  "LPush (rdb (ex_service [] (fault_at 0))) redisWindowKey (FormatFloat ex_lib (RPS ex_sample))
     = (Inl (RedisError ''i/o timeout''), (rdb (ex_service [] (fault_at 0)))\<lparr>issued := 1\<rparr>) \<and>
   logs (worker_iter ex_lib 0 1766925731 ex_sample (ex_service [] (fault_at 0)))
     = [''[worker 0] redis LPUSH error: i/o timeout''] \<and>
   currentRollingAvg (worker_iter ex_lib 0 1766925731 ex_sample (ex_service [] (fault_at 0))) = PZero \<and>
   LTrim (after_push (rdb (ex_service [] (fault_at 1))) ''120'') redisWindowKey 0 (windowSize - 1)
     = (Inl (RedisError ''i/o timeout''),
        (after_push (rdb (ex_service [] (fault_at 1))) ''120'')\<lparr>issued := 2\<rparr>) \<and>
   logs (worker_iter ex_lib 0 1766925731 ex_sample (ex_service [] (fault_at 1)))
     = [''[worker 0] redis LTRIM error: i/o timeout''] \<and>
   currentRollingAvg (worker_iter ex_lib 0 1766925731 ex_sample (ex_service [] (fault_at 1))) = PZero \<and>
   LRange (after_trim (rdb (ex_service [] (fault_at 2))) ''120'') redisWindowKey 0 (windowSize - 1)
     = (Inl (RedisError ''i/o timeout''),
        (after_trim (rdb (ex_service [] (fault_at 2))) ''120'')\<lparr>issued := 3\<rparr>) \<and>
   logs (worker_iter ex_lib 0 1766925731 ex_sample (ex_service [] (fault_at 2)))
     = [''[worker 0] redis LRANGE error: i/o timeout''] \<and>
   currentRollingAvg (worker_iter ex_lib 0 1766925731 ex_sample (ex_service [] (fault_at 2))) = PZero \<and>
   Set (after_read (rdb (ex_service [] (fault_at 3))) ''120'') redisLastKey
     (case Marshal ex_lib (compute (ParseFloat ex_lib) [''120''] ex_sample 1766925731) of
        Some bs \<Rightarrow> bs | None \<Rightarrow> [])
     = (Inl (RedisError ''i/o timeout''),
        (after_read (rdb (ex_service [] (fault_at 3))) ''120'')\<lparr>issued := 4\<rparr>) \<and>
   logs (worker_iter ex_lib 0 1766925731 ex_sample (ex_service [] (fault_at 3)))
     = [''[worker 0] redis SET last_analysis error: i/o timeout''] \<and>
   anomalyRate (worker_iter ex_lib 0 1766925731 ex_sample (ex_service [] (fault_at 3))) = PZero"
proof -
  let ?a = "compute (ParseFloat ex_lib) [''120''] ex_sample 1766925731"
  let ?b = "case Marshal ex_lib ?a of Some bs \<Rightarrow> bs | None \<Rightarrow> []"
  let ?e = "RedisError ''i/o timeout''"
  let ?s0 = "ex_service [] (fault_at 0)" let ?c0 = "rdb ?s0"
  let ?s1 = "ex_service [] (fault_at 1)" let ?c1 = "rdb ?s1"
  let ?s2 = "ex_service [] (fault_at 2)" let ?c2 = "rdb ?s2"
  let ?s3 = "ex_service [] (fault_at 3)" let ?c3 = "rdb ?s3"
  \<comment> \<open>the push fails\<close>
  have p0: "LPush ?c0 redisWindowKey (FormatFloat ex_lib (RPS ex_sample)) = (Inl ?e, ?c0\<lparr>issued := 1\<rparr>)"
    using LPush_fault[of ?c0 "''i/o timeout''" redisWindowKey "FormatFloat ex_lib (RPS ex_sample)"]
    by (simp add: ex_rdb fault_at_def)
  note t0 = C6_store_failures[where s = ?s0 and L = ex_lib and m = ex_sample and ?e1.0 = ?e
      and ?c1.0 = "?c0\<lparr>issued := 1\<rparr>" and wid = 0 and now = 1766925731]
  from t0 p0 have w0: "worker_iter ex_lib 0 1766925731 ex_sample ?s0 =
      ?s0\<lparr>rdb := ?c0\<lparr>issued := 1\<rparr>,
          logs := logs ?s0 @ [''[worker '' @ Itoa 0 @ ''] redis LPUSH error: '' @ Error ?e]\<rparr>"
    by blast
  have l0: "logs (worker_iter ex_lib 0 1766925731 ex_sample ?s0) = [''[worker 0] redis LPUSH error: i/o timeout'']"
    unfolding w0 by (simp add: ex_service_fields itoa_0)
  have g0: "currentRollingAvg (worker_iter ex_lib 0 1766925731 ex_sample ?s0) = PZero"
    unfolding w0 by (simp add: ex_service_fields)
  \<comment> \<open>the trim fails\<close>
  have p1: "LPush ?c1 redisWindowKey (FormatFloat ex_lib (RPS ex_sample)) = (Inr 1, after_push ?c1 ''120'')"
    by (rule ex_first_steps) (simp add: fault_at_def)
  have q1: "LTrim (after_push ?c1 ''120'') redisWindowKey 0 (windowSize - 1)
      = (Inl ?e, (after_push ?c1 ''120'')\<lparr>issued := 2\<rparr>)"
    using trim_fault_step[of ?c1 "''i/o timeout''" "''120''"] by (simp add: ex_rdb fault_at_def)
  note t1 = C6_store_failures[where s = ?s1 and L = ex_lib and m = ex_sample
      and ?c1.0 = "after_push ?c1 ''120''" and wid = 0 and now = 1766925731 and n = 1
      and ?e2.0 = ?e and ?c2.0 = "(after_push ?c1 ''120'')\<lparr>issued := 2\<rparr>"]
  from t1 p1 q1 have w1: "worker_iter ex_lib 0 1766925731 ex_sample ?s1 =
      ?s1\<lparr>rdb := (after_push ?c1 ''120'')\<lparr>issued := 2\<rparr>,
          logs := logs ?s1 @ [''[worker '' @ Itoa 0 @ ''] redis LTRIM error: '' @ Error ?e]\<rparr>"
    by blast
  have l1: "logs (worker_iter ex_lib 0 1766925731 ex_sample ?s1) = [''[worker 0] redis LTRIM error: i/o timeout'']"
    unfolding w1 by (simp add: ex_service_fields itoa_0)
  have g1: "currentRollingAvg (worker_iter ex_lib 0 1766925731 ex_sample ?s1) = PZero"
    unfolding w1 by (simp add: ex_service_fields)
  \<comment> \<open>the read fails\<close>
  have p2: "LPush ?c2 redisWindowKey (FormatFloat ex_lib (RPS ex_sample)) = (Inr 1, after_push ?c2 ''120'')"
    by (rule ex_first_steps) (simp add: fault_at_def)
  have q2: "LTrim (after_push ?c2 ''120'') redisWindowKey 0 (windowSize - 1) = (Inr (), after_trim ?c2 ''120'')"
    by (rule ex_trim_step) (simp add: fault_at_def)
  have r2: "LRange (after_trim ?c2 ''120'') redisWindowKey 0 (windowSize - 1)
      = (Inl ?e, (after_trim ?c2 ''120'')\<lparr>issued := 3\<rparr>)"
    using read_fault_step[of ?c2 "''i/o timeout''" "''120''"] by (simp add: ex_rdb fault_at_def)
  note t2 = C6_store_failures[where s = ?s2 and L = ex_lib and m = ex_sample
      and ?c1.0 = "after_push ?c2 ''120''" and wid = 0 and now = 1766925731 and n = 1
      and u = "()" and ?c2.0 = "after_trim ?c2 ''120''" and ?e3.0 = ?e
      and ?c3.0 = "(after_trim ?c2 ''120'')\<lparr>issued := 3\<rparr>"]
  from t2 p2 q2 r2 have w2: "worker_iter ex_lib 0 1766925731 ex_sample ?s2 =
      ?s2\<lparr>rdb := (after_trim ?c2 ''120'')\<lparr>issued := 3\<rparr>,
          logs := logs ?s2 @ [''[worker '' @ Itoa 0 @ ''] redis LRANGE error: '' @ Error ?e]\<rparr>"
    by blast
  have l2: "logs (worker_iter ex_lib 0 1766925731 ex_sample ?s2) = [''[worker 0] redis LRANGE error: i/o timeout'']"
    unfolding w2 by (simp add: ex_service_fields itoa_0)
  have g2: "currentRollingAvg (worker_iter ex_lib 0 1766925731 ex_sample ?s2) = PZero"
    unfolding w2 by (simp add: ex_service_fields)
  \<comment> \<open>the persist fails\<close>
  have p3: "LPush ?c3 redisWindowKey (FormatFloat ex_lib (RPS ex_sample)) = (Inr 1, after_push ?c3 ''120'')"
    by (rule ex_first_steps) (simp add: fault_at_def)
  have q3: "LTrim (after_push ?c3 ''120'') redisWindowKey 0 (windowSize - 1) = (Inr (), after_trim ?c3 ''120'')"
    by (rule ex_trim_step) (simp add: fault_at_def)
  have r3: "LRange (after_trim ?c3 ''120'') redisWindowKey 0 (windowSize - 1)
      = (Inr [''120''], after_read ?c3 ''120'')"
    by (rule ex_read_step) (simp add: fault_at_def)
  have s3: "Set (after_read ?c3 ''120'') redisLastKey ?b = (Inl ?e, (after_read ?c3 ''120'')\<lparr>issued := 4\<rparr>)"
    using set_fault_step[of ?c3 "''i/o timeout''" "''120''" redisLastKey ?b]
    by (simp add: ex_rdb fault_at_def)
  note t3 = C6_store_failures[where s = ?s3 and L = ex_lib and m = ex_sample
      and ?c1.0 = "after_push ?c3 ''120''" and wid = 0 and now = 1766925731 and n = 1
      and u = "()" and ?c2.0 = "after_trim ?c3 ''120''" and vals = "[''120'']"
      and ?c3.0 = "after_read ?c3 ''120''" and ?e4.0 = ?e
      and ?c4.0 = "(after_read ?c3 ''120'')\<lparr>issued := 4\<rparr>"]
  from t3 p3 q3 r3 s3 have w3: "worker_iter ex_lib 0 1766925731 ex_sample ?s3 =
      ?s3\<lparr>rdb := (after_read ?c3 ''120'')\<lparr>issued := 4\<rparr>,
          logs := logs ?s3 @
            [''[worker '' @ Itoa 0 @ ''] redis SET last_analysis error: '' @ Error ?e],
          currentRollingAvg := RollingAvg ?a,
          anomalyTotal := (if IsAnomaly ?a then anomalyTotal ?s3 + 1 else anomalyTotal ?s3),
          anomalyRate := (if IsAnomaly ?a then Fin 1 0 else PZero)\<rparr>"
    by blast
  have l3: "logs (worker_iter ex_lib 0 1766925731 ex_sample ?s3)
      = [''[worker 0] redis SET last_analysis error: i/o timeout'']"
    unfolding w3 by (simp add: ex_service_fields itoa_0)
  have g3: "anomalyRate (worker_iter ex_lib 0 1766925731 ex_sample ?s3) = PZero"
    unfolding w3 by (simp add: ex_sample_stats)
  from p0 l0 g0 q1 l1 g1 r2 l2 g2 s3 l3 g3 show ?thesis by (intro conjI)
qed

text \<open>
  The persist is the one store failure after which the iteration goes on: with the
  fourth command failing, the error is logged, nothing is stored, and the
  rolling-average gauge is set to the computed mean 120 all the same.
\<close>

theorem C6_persist_failure_counterexample:
  "Set (after_read (rdb (ex_service [] (fault_at 3))) ''120'') redisLastKey
     (case Marshal ex_lib (compute (ParseFloat ex_lib) [''120''] ex_sample 1766925731) of
        Some bs \<Rightarrow> bs | None \<Rightarrow> [])
     = (Inl (RedisError ''i/o timeout''),
        (after_read (rdb (ex_service [] (fault_at 3))) ''120'')\<lparr>issued := 4\<rparr>) \<and>
   logs (worker_iter ex_lib 0 1766925731 ex_sample (ex_service [] (fault_at 3)))
     = [''[worker 0] redis SET last_analysis error: i/o timeout''] \<and>
   store (rdb (worker_iter ex_lib 0 1766925731 ex_sample (ex_service [] (fault_at 3)))) redisLastKey
     = None \<and>
   currentRollingAvg (ex_service [] (fault_at 3)) = PZero \<and>
   currentRollingAvg (worker_iter ex_lib 0 1766925731 ex_sample (ex_service [] (fault_at 3)))
     = Fin 15 3"
proof -
  let ?s = "ex_service [] (fault_at 3)"
  let ?c = "rdb ?s"
  let ?a = "compute (ParseFloat ex_lib) [''120''] ex_sample 1766925731"
  let ?b = "case Marshal ex_lib ?a of Some bs \<Rightarrow> bs | None \<Rightarrow> []"
  have h1: "LPush ?c redisWindowKey (FormatFloat ex_lib (RPS ex_sample)) = (Inr 1, after_push ?c ''120'')"
    by (rule ex_first_steps) (simp add: fault_at_simps)
  have h2: "LTrim (after_push ?c ''120'') redisWindowKey 0 (windowSize - 1) = (Inr (), after_trim ?c ''120'')"
    by (rule ex_trim_step) (simp add: fault_at_simps)
  have h3: "LRange (after_trim ?c ''120'') redisWindowKey 0 (windowSize - 1)
      = (Inr [''120''], after_read ?c ''120'')"
    by (rule ex_read_step) (simp add: fault_at_simps)
  have h4: "Set (after_read ?c ''120'') redisLastKey ?b
      = (Inl (RedisError ''i/o timeout''), (after_read ?c ''120'')\<lparr>issued := 4\<rparr>)"
    using set_fault_step[of ?c "''i/o timeout''" "''120''" redisLastKey ?b]
    by (simp add: ex_rdb fault_at_simps)
  have w: "worker_iter ex_lib 0 1766925731 ex_sample ?s = persist_and_observe ex_lib 0 ?a (after_read ?c ''120'') ?s"
    by (rule worker_iter_computes[OF h1 h2 h3])
  have l: "logs (worker_iter ex_lib 0 1766925731 ex_sample ?s)
      = [''[worker 0] redis SET last_analysis error: i/o timeout'']"
    unfolding w persist_fails[OF h4] by (simp add: ex_service_fields logline_text itoa_0)
  have st: "store (rdb (worker_iter ex_lib 0 1766925731 ex_sample ?s)) redisLastKey = None"
    unfolding w persist_fails[OF h4] by (simp add: after_read_fields ex_rdb)
  have g: "currentRollingAvg (worker_iter ex_lib 0 1766925731 ex_sample ?s) = Fin 15 3"
    unfolding w persist_fails[OF h4] by (simp add: ex_sample_stats)
  from h4 l st g ex_service_fields(2)[of "[]" "fault_at 3"] show ?thesis by (intro conjI)
qed




text \<open>
  Claim C7. A request to \<^verbatim>\<open>/analyze\<close> with a method other than GET is answered 405. A
  GET is answered 200 with the stored bytes as body when the result key holds a
  value (in particular right after a persist that succeeded), 204 with no body when
  the key is missing, and 503 when the read fails with any other error, be it in
  transport or because the key holds a list.
\<close>

theorem C7_analyze_responses:
  "(Method r \<noteq> ''GET'' \<longrightarrow> status (fst (handleAnalyze r s)) = 405) \<and>
   (Method r = ''GET'' \<and> faults (rdb s) (issued (rdb s)) = None \<and>
      store (rdb s) redisLastKey = Some (RString v) \<longrightarrow>
        fst (handleAnalyze r s) =
          \<lparr>status = 200, headers = [(''Content-Type'', ''application/json'')], body = v\<rparr>) \<and>
   (Method r = ''GET'' \<and> faults (rdb s) (issued (rdb s)) = None \<and>
      store (rdb s) redisLastKey = None \<longrightarrow>
        fst (handleAnalyze r s) = \<lparr>status = 204, headers = [], body = []\<rparr>) \<and>
   (Method r = ''GET'' \<and> faults (rdb s) (issued (rdb s)) = Some e \<longrightarrow>
        status (fst (handleAnalyze r s)) = 503 \<and>
        body (fst (handleAnalyze r s)) = ''redis error: '' @ e @ [CHR 0x0A]) \<and>
   (Method r = ''GET'' \<and> faults (rdb s) (issued (rdb s)) = None \<and>
      store (rdb s) redisLastKey = Some (RList xs) \<longrightarrow>
        status (fst (handleAnalyze r s)) = 503) \<and>
   (Method r = ''GET'' \<and> Set c0 redisLastKey b = (Inr u, rdb s) \<and>
      faults (rdb s) (issued (rdb s)) = None \<longrightarrow>
        status (fst (handleAnalyze r s)) = 200 \<and> body (fst (handleAnalyze r s)) = b)"
proof -
  have g: "MethodGet = ''GET''" by (simp add: MethodGet_def)
  have a: "Method r \<noteq> ''GET'' \<longrightarrow> status (fst (handleAnalyze r s)) = 405"
    using handleAnalyze_not_get[of r s]
    by (simp add: g http_Error_def StatusMethodNotAllowed_def)
  have b: "Method r = ''GET'' \<and> faults (rdb s) (issued (rdb s)) = None \<and>
      store (rdb s) redisLastKey = Some (RString v) \<longrightarrow>
        fst (handleAnalyze r s) =
          \<lparr>status = 200, headers = [(''Content-Type'', ''application/json'')], body = v\<rparr>"
    using handleAnalyze_found[of r s v] by blast
  have c: "Method r = ''GET'' \<and> faults (rdb s) (issued (rdb s)) = None \<and>
      store (rdb s) redisLastKey = None \<longrightarrow>
        fst (handleAnalyze r s) = \<lparr>status = 204, headers = [], body = []\<rparr>"
    using handleAnalyze_get(2)[OF _ Get_cases(2), of r s]
    by (simp add: g StatusNoContent_def)
  have d: "Method r = ''GET'' \<and> faults (rdb s) (issued (rdb s)) = Some e \<longrightarrow>
        status (fst (handleAnalyze r s)) = 503 \<and>
        body (fst (handleAnalyze r s)) = ''redis error: '' @ e @ [CHR 0x0A]"
    using handleAnalyze_get(3)[OF _ Get_cases(1), of r s e]
    by (simp add: g http_Error_def StatusServiceUnavailable_def)
  have e: "Method r = ''GET'' \<and> faults (rdb s) (issued (rdb s)) = None \<and>
      store (rdb s) redisLastKey = Some (RList xs) \<longrightarrow>
        status (fst (handleAnalyze r s)) = 503"
    using handleAnalyze_get(3)[OF _ Get_cases(4)[unfolded WRONGTYPE_def], of r s xs]
    by (simp add: g http_Error_def StatusServiceUnavailable_def)
  have f: "Method r = ''GET'' \<and> Set c0 redisLastKey b = (Inr u, rdb s) \<and>
      faults (rdb s) (issued (rdb s)) = None \<longrightarrow>
        status (fst (handleAnalyze r s)) = 200 \<and> body (fst (handleAnalyze r s)) = b"
  proof
    assume h: "Method r = ''GET'' \<and> Set c0 redisLastKey b = (Inr u, rdb s) \<and>
      faults (rdb s) (issued (rdb s)) = None"
    then have "store (rdb s) redisLastKey = Some (RString b)"
      using Set_ok[of c0 redisLastKey b u "rdb s"] by simp
    with h handleAnalyze_found[of r s b]
    show "status (fst (handleAnalyze r s)) = 200 \<and> body (fst (handleAnalyze r s)) = b"
      by simp
  qed
  from a b c d e f show ?thesis by (intro conjI)
qed


theorem C7_analyze_responses_witness:
  "Method (ex_post None) \<noteq> ''GET'' \<and>
   status (fst (handleAnalyze (ex_post None) (ex_service [] no_faults))) = 405 \<and>
   Set (rdb (ex_service [] no_faults)) redisLastKey ''count=1'' = (Inr (), rdb (ex_stored ''count=1'')) \<and>
   fst (handleAnalyze ex_get (ex_stored ''count=1'')) =
     \<lparr>status = 200, headers = [(''Content-Type'', ''application/json'')], body = ''count=1''\<rparr> \<and>
   store (rdb (ex_service [] no_faults)) redisLastKey = None \<and>
   fst (handleAnalyze ex_get (ex_service [] no_faults)) = \<lparr>status = 204, headers = [], body = []\<rparr> \<and>
   faults (rdb (ex_service [] (fault_at 0))) (issued (rdb (ex_service [] (fault_at 0))))
     = Some ''i/o timeout'' \<and>
   status (fst (handleAnalyze ex_get (ex_service [] (fault_at 0)))) = 503 \<and>
   body (fst (handleAnalyze ex_get (ex_service [] (fault_at 0)))) = ''redis error: i/o timeout'' @ [CHR 0x0A] \<and>
   store (rdb ex_wrong_type) redisLastKey = Some (RList [''x'']) \<and>
   status (fst (handleAnalyze ex_get ex_wrong_type)) = 503 \<and>
   body (fst (handleAnalyze ex_get (ex_stored ''count=1''))) = ''count=1''"
proof -
  let ?s = "ex_service [] no_faults"
  let ?sf = "ex_service [] (fault_at 0)"
  have m0: "Method (ex_post None) \<noteq> ''GET''" by (simp add: ex_post_def)
  have m1: "Method ex_get = ''GET''" by (simp add: ex_get_def)
  have nf: "faults (rdb ?s) (issued (rdb ?s)) = None" by (simp add: ex_rdb no_faults_def)
  have st: "Set (rdb ?s) redisLastKey ''count=1'' = (Inr (), rdb (ex_stored ''count=1''))"
    using Set_no_fault[OF nf, of redisLastKey "''count=1''"] by (simp add: ex_stored_def ex_rdb)
  have nf1: "faults (rdb (ex_stored ''count=1'')) (issued (rdb (ex_stored ''count=1''))) = None"
    by (simp add: ex_stored_def ex_rdb no_faults_def)
  have s1: "store (rdb (ex_stored ''count=1'')) redisLastKey = Some (RString ''count=1'')"
    by (simp add: ex_stored_def)
  have s0: "store (rdb ?s) redisLastKey = None" by (simp add: ex_rdb)
  have ff: "faults (rdb ?sf) (issued (rdb ?sf)) = Some ''i/o timeout''"
    by (simp add: ex_rdb fault_at_def)
  have nfw: "faults (rdb ex_wrong_type) (issued (rdb ex_wrong_type)) = None"
    by (simp add: ex_wrong_type_def ex_rdb no_faults_def)
  have sw: "store (rdb ex_wrong_type) redisLastKey = Some (RList [''x''])"
    by (simp add: ex_wrong_type_def)
  from C7_analyze_responses[where r = "ex_post None" and s = ?s] m0
  have r1: "status (fst (handleAnalyze (ex_post None) ?s)) = 405" by blast
  from C7_analyze_responses[where r = ex_get and s = "ex_stored ''count=1''" and v = "''count=1''"]
    m1 nf1 s1
  have r2: "fst (handleAnalyze ex_get (ex_stored ''count=1'')) =
     \<lparr>status = 200, headers = [(''Content-Type'', ''application/json'')], body = ''count=1''\<rparr>"
    by blast
  from C7_analyze_responses[where r = ex_get and s = ?s] m1 nf s0
  have r3: "fst (handleAnalyze ex_get ?s) = \<lparr>status = 204, headers = [], body = []\<rparr>" by blast
  from C7_analyze_responses[where r = ex_get and s = ?sf and e = "''i/o timeout''"] m1 ff
  have r4: "status (fst (handleAnalyze ex_get ?sf)) = 503"
    "body (fst (handleAnalyze ex_get ?sf)) = ''redis error: '' @ ''i/o timeout'' @ [CHR 0x0A]" by blast+
  from C7_analyze_responses[where r = ex_get and s = ex_wrong_type and xs = "[''x'']"] m1 nfw sw
  have r5: "status (fst (handleAnalyze ex_get ex_wrong_type)) = 503" by blast
  from r4(2) have r4': "body (fst (handleAnalyze ex_get ?sf)) = ''redis error: i/o timeout'' @ [CHR 0x0A]"
    by simp
  from C7_analyze_responses[where r = ex_get and s = "ex_stored ''count=1''" and ?c0.0 = "rdb ?s"
      and b = "''count=1''" and u = "()"] m1 st nf1
  have r6: "body (fst (handleAnalyze ex_get (ex_stored ''count=1''))) = ''count=1''" by blast
  from m0 r1 st r2 s0 r3 ff r4(1) r4' sw r5 r6 show ?thesis by (intro conjI)
qed

subsection \<open>C5: admission to the queue\<close>

text \<open>
  Claim C5. A \<^verbatim>\<open>POST /ingest\<close> request whose body decodes into a sample is answered at
  once, by \<^verbatim>\<open>handleIngest\<close> alone: when the queue holds fewer samples than its capacity
  the sample is appended to the queue, the ingest counter grows by one and the reply is
  \<^verbatim>\<open>202\<close> with the body \<^verbatim>\<open>{"status":"accepted"}\<close>; when the queue is full the reply is
  \<^verbatim>\<open>503\<close> with a plain-text body, and neither the queue nor the counter changes. The
  queue of \<^verbatim>\<open>NewService\<close> is empty with capacity 10000, and the handler never changes the
  capacity. (The latency histogram is observed on every path.)
\<close>

theorem C5_admission:
  "(Method r = ''POST'' \<and> Decode (ParseFloat L) (Body r) zero_Metric = Some m0 \<and>
    length (buf (metricsCh s)) < cap (metricsCh s) \<longrightarrow>
      handleIngest L now r s =
        (\<lparr>status = 202, headers = [(''Content-Type'', ''application/json'')],
          body = accepted_body\<rparr>,
         s\<lparr>ingestLatency := ingestLatency s + 1,
           metricsCh := (metricsCh s)\<lparr>buf := buf (metricsCh s) @
             [if Timestamp m0 = 0 then m0\<lparr>Timestamp := now\<rparr> else m0]\<rparr>,
           ingestTotal := ingestTotal s + 1\<rparr>)) \<and>
   (Method r = ''POST'' \<and> Decode (ParseFloat L) (Body r) zero_Metric = Some m0 \<and>
    cap (metricsCh s) \<le> length (buf (metricsCh s)) \<longrightarrow>
      handleIngest L now r s =
        (\<lparr>status = 503,
          headers = [(''Content-Type'', ''text/plain; charset=utf-8''),
                     (''X-Content-Type-Options'', ''nosniff'')],
          body = ''overloaded'' @ [CHR 0x0A]\<rparr>,
         s\<lparr>ingestLatency := ingestLatency s + 1\<rparr>)) \<and>
   cap (metricsCh (NewService c)) = 10000 \<and> buf (metricsCh (NewService c)) = [] \<and>
   cap (metricsCh (snd (handleIngest L now r s))) = cap (metricsCh s)"
proof -
  have p: "MethodPost = ''POST''" by (simp add: MethodPost_def)
  have a: "Method r = ''POST'' \<and> Decode (ParseFloat L) (Body r) zero_Metric = Some m0 \<and>
    length (buf (metricsCh s)) < cap (metricsCh s) \<longrightarrow>
      handleIngest L now r s =
        (\<lparr>status = 202, headers = [(''Content-Type'', ''application/json'')],
          body = accepted_body\<rparr>,
         s\<lparr>ingestLatency := ingestLatency s + 1,
           metricsCh := (metricsCh s)\<lparr>buf := buf (metricsCh s) @
             [if Timestamp m0 = 0 then m0\<lparr>Timestamp := now\<rparr> else m0]\<rparr>,
           ingestTotal := ingestTotal s + 1\<rparr>)"
    using handleIngest_admitted[of r L m0 s now] by (simp add: p StatusAccepted_def)
  have b: "Method r = ''POST'' \<and> Decode (ParseFloat L) (Body r) zero_Metric = Some m0 \<and>
    cap (metricsCh s) \<le> length (buf (metricsCh s)) \<longrightarrow>
      handleIngest L now r s =
        (\<lparr>status = 503,
          headers = [(''Content-Type'', ''text/plain; charset=utf-8''),
                     (''X-Content-Type-Options'', ''nosniff'')],
          body = ''overloaded'' @ [CHR 0x0A]\<rparr>,
         s\<lparr>ingestLatency := ingestLatency s + 1\<rparr>)"
    using handleIngest_overloaded[of r L m0 s now]
    by (simp add: p StatusServiceUnavailable_def http_Error_def)
  have c: "cap (metricsCh (NewService c)) = 10000" "buf (metricsCh (NewService c)) = []"
    by (simp_all add: NewService_def)
  have d: "cap (metricsCh (snd (handleIngest L now r s))) = cap (metricsCh s)"
    by (simp add: handleIngest_def Let_def split: option.splits)
  from a b c d show ?thesis by (intro conjI)
qed

text \<open>
  The README's request against an empty queue and against a queue holding 10000
  samples.
\<close>

theorem C5_admission_witness:
  "Decode (ParseFloat ex_lib) (Body (ex_post (Some ex_body))) zero_Metric
     = Some \<lparr>Timestamp = 0, CPU = Fin 3 2, RPS = Fin 15 3\<rparr> \<and>
   length (buf (metricsCh (ex_service [] no_faults))) < cap (metricsCh (ex_service [] no_faults)) \<and>
   fst (handleIngest ex_lib 1766925730 (ex_post (Some ex_body)) (ex_service [] no_faults))
     = \<lparr>status = 202, headers = [(''Content-Type'', ''application/json'')], body = accepted_body\<rparr> \<and>
   buf (metricsCh (snd (handleIngest ex_lib 1766925730 (ex_post (Some ex_body)) (ex_service [] no_faults))))
     = [ex_sample] \<and>
   ingestTotal (snd (handleIngest ex_lib 1766925730 (ex_post (Some ex_body)) (ex_service [] no_faults))) = 1 \<and>
   cap (metricsCh ex_full) \<le> length (buf (metricsCh ex_full)) \<and>
   status (fst (handleIngest ex_lib 1766925730 (ex_post (Some ex_body)) ex_full)) = 503 \<and>
   metricsCh (snd (handleIngest ex_lib 1766925730 (ex_post (Some ex_body)) ex_full)) = metricsCh ex_full \<and>
   ingestTotal (snd (handleIngest ex_lib 1766925730 (ex_post (Some ex_body)) ex_full)) = 0"
proof -
  let ?r = "ex_post (Some ex_body)"
  let ?s = "ex_service [] no_faults"
  let ?m0 = "\<lparr>Timestamp = 0, CPU = Fin 3 2, RPS = Fin 15 3\<rparr>"
  have m: "Method ?r = ''POST''" by (simp add: ex_post_fields)
  have d: "Decode (ParseFloat ex_lib) (Body ?r) zero_Metric = Some ?m0"
    unfolding ex_post_fields ex_body_def ex_lib_fields
    by (rule Decode_cpu_rps[of ParseFloat_plain "''12''" "Fin 3 2" "''120''" "Fin 15 3",
          OF plain_12 plain_120])
  have room: "length (buf (metricsCh ?s)) < cap (metricsCh ?s)" by (simp add: ex_service_queue)
  have full: "cap (metricsCh ex_full) \<le> length (buf (metricsCh ex_full))" by (simp add: ex_full_def)
  note t1 = C5_admission[where r = ?r and L = ex_lib and ?m0.0 = ?m0 and s = ?s and now = 1766925730]
  from t1 m d room have e1: "handleIngest ex_lib 1766925730 ?r ?s =
        (\<lparr>status = 202, headers = [(''Content-Type'', ''application/json'')], body = accepted_body\<rparr>,
         ?s\<lparr>ingestLatency := ingestLatency ?s + 1,
           metricsCh := (metricsCh ?s)\<lparr>buf := buf (metricsCh ?s) @
             [if Timestamp ?m0 = 0 then ?m0\<lparr>Timestamp := 1766925730\<rparr> else ?m0]\<rparr>,
           ingestTotal := ingestTotal ?s + 1\<rparr>)"
    by blast
  note t2 = C5_admission[where r = ?r and L = ex_lib and ?m0.0 = ?m0 and s = ex_full and now = 1766925730]
  from t2 m d full have e2: "handleIngest ex_lib 1766925730 ?r ex_full =
        (\<lparr>status = 503,
          headers = [(''Content-Type'', ''text/plain; charset=utf-8''),
                     (''X-Content-Type-Options'', ''nosniff'')],
          body = ''overloaded'' @ [CHR 0x0A]\<rparr>,
         ex_full\<lparr>ingestLatency := ingestLatency ex_full + 1\<rparr>)"
    by blast
  have r1: "fst (handleIngest ex_lib 1766925730 ?r ?s)
     = \<lparr>status = 202, headers = [(''Content-Type'', ''application/json'')], body = accepted_body\<rparr>"
    unfolding e1 by simp
  have r2: "buf (metricsCh (snd (handleIngest ex_lib 1766925730 ?r ?s))) = [ex_sample]"
    unfolding e1 by (simp add: ex_service_queue ex_sample_def)
  have r3: "ingestTotal (snd (handleIngest ex_lib 1766925730 ?r ?s)) = 1"
    unfolding e1 by (simp add: ex_service_queue)
  have r4: "status (fst (handleIngest ex_lib 1766925730 ?r ex_full)) = 503"
    unfolding e2 by simp
  have r5: "metricsCh (snd (handleIngest ex_lib 1766925730 ?r ex_full)) = metricsCh ex_full"
    unfolding e2 by simp
  have r6: "ingestTotal (snd (handleIngest ex_lib 1766925730 ?r ex_full)) = 0"
    unfolding e2 by (simp add: ex_full_def ex_service_queue)
  from d room r1 r2 r3 full r4 r5 r6 show ?thesis by (intro conjI)
qed

text \<open>
  Well-formed JSON is not enough for admission: the body \<^verbatim>\<open>{"cpu":"high"}\<close> is a
  well-formed JSON object, the queue is empty, and the reply is \<^verbatim>\<open>400\<close>; nothing is
  enqueued and the counter stays at 0.
\<close>

theorem C5_type_error_counterexample:
  "Method (ex_post (Some (JObject [(''cpu'', JString ''high'')]))) = ''POST'' \<and>
   Body (ex_post (Some (JObject [(''cpu'', JString ''high'')])))
     = Some (JObject [(''cpu'', JString ''high'')]) \<and>
   length (buf (metricsCh (ex_service [] no_faults))) < 10000 \<and>
   cap (metricsCh (ex_service [] no_faults)) = 10000 \<and>
   fst (handleIngest ex_lib 1766925730 (ex_post (Some (JObject [(''cpu'', JString ''high'')])))
      (ex_service [] no_faults))
     = \<lparr>status = 400,
        headers = [(''Content-Type'', ''text/plain; charset=utf-8''),
                   (''X-Content-Type-Options'', ''nosniff'')],
        body = ''bad json: invalid body'' @ [CHR 0x0A]\<rparr> \<and>
   buf (metricsCh (snd (handleIngest ex_lib 1766925730
      (ex_post (Some (JObject [(''cpu'', JString ''high'')]))) (ex_service [] no_faults)))) = [] \<and>
   ingestTotal (snd (handleIngest ex_lib 1766925730
      (ex_post (Some (JObject [(''cpu'', JString ''high'')]))) (ex_service [] no_faults))) = 0"
proof -
  let ?bad = "ex_post (Some (JObject [(''cpu'', JString ''high'')]))"
  let ?s = "ex_service [] no_faults"
  have m: "Method ?bad = MethodPost" by (simp add: ex_post_fields MethodPost_def)
  have db: "Decode (ParseFloat ex_lib) (Body ?bad) zero_Metric = None"
    by (simp add: ex_post_fields fold_cpu Let_def del: foldName.simps)
  have e: "handleIngest ex_lib 1766925730 ?bad ?s =
    (http_Error (''bad json: '' @ ErrorText ex_lib (Body ?bad)) StatusBadRequest,
     ?s\<lparr>ingestLatency := ingestLatency ?s + 1\<rparr>)"
    by (rule handleIngest_bad_json[OF m db])
  have t: "ErrorText ex_lib b = ''invalid body''" for b by (simp add: ex_lib_def)
  show ?thesis
    unfolding e by (simp add: ex_post_fields ex_service_queue http_Error_def StatusBadRequest_def t)
qed


subsection \<open>C10: what the ingest handler validates\<close>

text \<open>
  Claim C10. For a \<^verbatim>\<open>POST /ingest\<close> request the reply is \<^verbatim>\<open>400\<close> exactly when decoding
  the body fails. Decoding fails when the body is not a JSON value (a syntax error), and
  when a member for \<^verbatim>\<open>cpu\<close> or \<^verbatim>\<open>rps\<close> holds a value that is neither a number nor
  \<^verbatim>\<open>null\<close> (a field-type error). Missing fields are no error: an object with none of
  the three fields, \<^verbatim>\<open>{}\<close> among them, decodes to timestamp 0, cpu 0 and rps 0. Whatever
  numbers \<^verbatim>\<open>strconv.ParseFloat\<close> reads for \<^verbatim>\<open>cpu\<close> and \<^verbatim>\<open>rps\<close> are taken as they are.
  Every decoded sample is then admitted unchanged but for a zero timestamp, which
  becomes the current time: the reply is \<^verbatim>\<open>202\<close> and the sample joins the queue, unless
  the queue is full (\<^verbatim>\<open>503\<close>). All of this holds for every \<^verbatim>\<open>ParseFloat\<close>.
\<close>

theorem C10_ingest_validation:
  "Method r = ''POST'' \<longrightarrow>
     (status (fst (handleIngest L now r s)) = 400 \<longleftrightarrow>
        Decode (ParseFloat L) (Body r) zero_Metric = None) \<and>
     (Body r = None \<longrightarrow> Decode (ParseFloat L) (Body r) zero_Metric = None) \<and>
     (Body r = Some (JObject kvs) \<and> (k, v) \<in> set kvs \<and>
      (foldName k = ''CPU'' \<or> foldName k = ''RPS'') \<and> v \<noteq> JNull \<and> (\<forall>lit. v \<noteq> JNumber lit) \<longrightarrow>
        Decode (ParseFloat L) (Body r) zero_Metric = None) \<and>
     (Body r = Some (JObject kvs) \<and>
      (\<forall>kv \<in> set kvs. foldName (fst kv) \<noteq> ''TIMESTAMP'' \<and> foldName (fst kv) \<noteq> ''CPU''
         \<and> foldName (fst kv) \<noteq> ''RPS'') \<longrightarrow>
        Decode (ParseFloat L) (Body r) zero_Metric = Some \<lparr>Timestamp = 0, CPU = PZero, RPS = PZero\<rparr>) \<and>
     (Body r = Some (JObject [(''cpu'', JNumber lc), (''rps'', JNumber lr)]) \<and>
      ParseFloat L lc = Some x \<and> ParseFloat L lr = Some y \<longrightarrow>
        Decode (ParseFloat L) (Body r) zero_Metric = Some \<lparr>Timestamp = 0, CPU = x, RPS = y\<rparr>) \<and>
     (Decode (ParseFloat L) (Body r) zero_Metric = Some m0 \<longrightarrow>
        status (fst (handleIngest L now r s)) =
          (if length (buf (metricsCh s)) < cap (metricsCh s) then 202 else 503) \<and>
        buf (metricsCh (snd (handleIngest L now r s))) =
          (if length (buf (metricsCh s)) < cap (metricsCh s)
           then buf (metricsCh s) @
                  [m0\<lparr>Timestamp := (if Timestamp m0 = 0 then now else Timestamp m0)\<rparr>]
           else buf (metricsCh s)))"
proof
  assume m: "Method r = ''POST''"
  have a: "status (fst (handleIngest L now r s)) = 400 \<longleftrightarrow>
        Decode (ParseFloat L) (Body r) zero_Metric = None"
    by (rule handleIngest_status_400[OF m])
  have b: "Body r = None \<longrightarrow> Decode (ParseFloat L) (Body r) zero_Metric = None"
    by simp
  have c: "Body r = Some (JObject kvs) \<and> (k, v) \<in> set kvs \<and>
      (foldName k = ''CPU'' \<or> foldName k = ''RPS'') \<and> v \<noteq> JNull \<and> (\<forall>lit. v \<noteq> JNumber lit) \<longrightarrow>
        Decode (ParseFloat L) (Body r) zero_Metric = None"
    using Decode_type_error[of k v kvs "ParseFloat L" zero_Metric] by simp
  have d: "Body r = Some (JObject kvs) \<and>
      (\<forall>kv \<in> set kvs. foldName (fst kv) \<noteq> ''TIMESTAMP'' \<and> foldName (fst kv) \<noteq> ''CPU''
         \<and> foldName (fst kv) \<noteq> ''RPS'') \<longrightarrow>
        Decode (ParseFloat L) (Body r) zero_Metric = Some \<lparr>Timestamp = 0, CPU = PZero, RPS = PZero\<rparr>"
    using Decode_no_field[of kvs "ParseFloat L" zero_Metric] by (simp add: zero_Metric_def)
  have e: "Body r = Some (JObject [(''cpu'', JNumber lc), (''rps'', JNumber lr)]) \<and>
      ParseFloat L lc = Some x \<and> ParseFloat L lr = Some y \<longrightarrow>
        Decode (ParseFloat L) (Body r) zero_Metric = Some \<lparr>Timestamp = 0, CPU = x, RPS = y\<rparr>"
    using Decode_cpu_rps[of "ParseFloat L" lc x lr y] by simp
  have f: "Decode (ParseFloat L) (Body r) zero_Metric = Some m0 \<longrightarrow>
        status (fst (handleIngest L now r s)) =
          (if length (buf (metricsCh s)) < cap (metricsCh s) then 202 else 503) \<and>
        buf (metricsCh (snd (handleIngest L now r s))) =
          (if length (buf (metricsCh s)) < cap (metricsCh s)
           then buf (metricsCh s) @
                  [m0\<lparr>Timestamp := (if Timestamp m0 = 0 then now else Timestamp m0)\<rparr>]
           else buf (metricsCh s))"
    using handleIngest_decoded[OF m, of L m0 now s] by blast
  from a b c d e f show "(status (fst (handleIngest L now r s)) = 400 \<longleftrightarrow>
        Decode (ParseFloat L) (Body r) zero_Metric = None) \<and>
     (Body r = None \<longrightarrow> Decode (ParseFloat L) (Body r) zero_Metric = None) \<and>
     (Body r = Some (JObject kvs) \<and> (k, v) \<in> set kvs \<and>
      (foldName k = ''CPU'' \<or> foldName k = ''RPS'') \<and> v \<noteq> JNull \<and> (\<forall>lit. v \<noteq> JNumber lit) \<longrightarrow>
        Decode (ParseFloat L) (Body r) zero_Metric = None) \<and>
     (Body r = Some (JObject kvs) \<and>
      (\<forall>kv \<in> set kvs. foldName (fst kv) \<noteq> ''TIMESTAMP'' \<and> foldName (fst kv) \<noteq> ''CPU''
         \<and> foldName (fst kv) \<noteq> ''RPS'') \<longrightarrow>
        Decode (ParseFloat L) (Body r) zero_Metric = Some \<lparr>Timestamp = 0, CPU = PZero, RPS = PZero\<rparr>) \<and>
     (Body r = Some (JObject [(''cpu'', JNumber lc), (''rps'', JNumber lr)]) \<and>
      ParseFloat L lc = Some x \<and> ParseFloat L lr = Some y \<longrightarrow>
        Decode (ParseFloat L) (Body r) zero_Metric = Some \<lparr>Timestamp = 0, CPU = x, RPS = y\<rparr>) \<and>
     (Decode (ParseFloat L) (Body r) zero_Metric = Some m0 \<longrightarrow>
        status (fst (handleIngest L now r s)) =
          (if length (buf (metricsCh s)) < cap (metricsCh s) then 202 else 503) \<and>
        buf (metricsCh (snd (handleIngest L now r s))) =
          (if length (buf (metricsCh s)) < cap (metricsCh s)
           then buf (metricsCh s) @
                  [m0\<lparr>Timestamp := (if Timestamp m0 = 0 then now else Timestamp m0)\<rparr>]
           else buf (metricsCh s)))"
    by (intro conjI)
qed

text \<open>
  A body that is not JSON and a body with a string for \<^verbatim>\<open>cpu\<close> are refused; \<^verbatim>\<open>{}\<close> and
  \<^verbatim>\<open>{"host":"a"}\<close> are admitted as cpu 0, rps 0 at the current time; cpu \<^verbatim>\<open>-5\<close> with rps
  \<^verbatim>\<open>1000000000\<close> is admitted as it is, and refused with \<^verbatim>\<open>503\<close> by a full queue.
\<close>

theorem C10_ingest_validation_witness:
  "Method (ex_post None) = ''POST'' \<and>
   status (fst (handleIngest ex_lib 1766925730 (ex_post None) (ex_service [] no_faults))) = 400 \<and>
   (''cpu'', JString ''high'') \<in> set [(''cpu'', JString ''high'')] \<and>
   foldName ''cpu'' = ''CPU'' \<and>
   status (fst (handleIngest ex_lib 1766925730
      (ex_post (Some (JObject [(''cpu'', JString ''high'')]))) (ex_service [] no_faults))) = 400 \<and>
   status (fst (handleIngest ex_lib 1766925730 (ex_post (Some (JObject []))) (ex_service [] no_faults)))
     = 202 \<and>
   buf (metricsCh (snd (handleIngest ex_lib 1766925730 (ex_post (Some (JObject [])))
      (ex_service [] no_faults))))
     = [\<lparr>Timestamp = 1766925730, CPU = PZero, RPS = PZero\<rparr>] \<and>
   buf (metricsCh (snd (handleIngest ex_lib 1766925730 (ex_post (Some ex_other_body))
      (ex_service [] no_faults))))
     = [\<lparr>Timestamp = 1766925730, CPU = PZero, RPS = PZero\<rparr>] \<and>
   ParseFloat ex_lib ''-5'' = Some (Fin (- 5) 0) \<and>
   ParseFloat ex_lib ''1000000000'' = Some (Fin 1953125 9) \<and>
   status (fst (handleIngest ex_lib 1766925730 (ex_post (Some ex_odd_body))
      (ex_service [] no_faults))) = 202 \<and>
   buf (metricsCh (snd (handleIngest ex_lib 1766925730 (ex_post (Some ex_odd_body))
      (ex_service [] no_faults))))
     = [\<lparr>Timestamp = 1766925730, CPU = Fin (- 5) 0, RPS = Fin 1953125 9\<rparr>] \<and>
   status (fst (handleIngest ex_lib 1766925730 (ex_post (Some ex_odd_body)) ex_full)) = 503 \<and>
   buf (metricsCh (snd (handleIngest ex_lib 1766925730 (ex_post (Some ex_odd_body)) ex_full)))
     = buf (metricsCh ex_full)"
proof -
  let ?s = "ex_service [] no_faults"
  let ?bad = "ex_post (Some (JObject [(''cpu'', JString ''high'')]))"
  let ?z = "\<lparr>Timestamp = 0, CPU = PZero, RPS = PZero\<rparr>"
  let ?o = "\<lparr>Timestamp = 0, CPU = Fin (- 5) 0, RPS = Fin 1953125 9\<rparr>"
  have room: "length (buf (metricsCh ?s)) < cap (metricsCh ?s)" by (simp add: ex_service_queue)
  have full: "\<not> length (buf (metricsCh ex_full)) < cap (metricsCh ex_full)"
    by (simp add: ex_full_def)
  have m: "\<And>j. Method (ex_post j) = ''POST''" by (simp add: ex_post_fields)
  have p1: "ParseFloat ex_lib ''-5'' = Some (Fin (- 5) 0)" by (simp add: ex_lib_fields plain_m5)
  have p2: "ParseFloat ex_lib ''1000000000'' = Some (Fin 1953125 9)"
    by (simp add: ex_lib_fields plain_1e9)
  have bo: "Body (ex_post (Some ex_odd_body))
      = Some (JObject [(''cpu'', JNumber ''-5''), (''rps'', JNumber ''1000000000'')])"
    by (simp add: ex_post_fields ex_odd_body_def)
  have bb: "Body ?bad = Some (JObject [(''cpu'', JString ''high'')])" by (simp add: ex_post_fields)
  have be: "Body (ex_post (Some (JObject []))) = Some (JObject [])" by (simp add: ex_post_fields)
  have bh: "Body (ex_post (Some ex_other_body)) = Some (JObject [(''host'', JString ''a'')])"
    by (simp add: ex_post_fields ex_other_body_def)
  have bn: "Body (ex_post None) = None" by (simp add: ex_post_fields)
  have mem: "(''cpu'', JString ''high'') \<in> set [(''cpu'', JString ''high'')]" by simp
  have nf: "\<forall>kv \<in> set [(''host'', JString ''a'')]. foldName (fst kv) \<noteq> ''TIMESTAMP''
      \<and> foldName (fst kv) \<noteq> ''CPU'' \<and> foldName (fst kv) \<noteq> ''RPS''"
    by (simp add: fold_host del: foldName.simps)
  have ne: "\<forall>kv \<in> set ([] :: (string \<times> json) list). foldName (fst kv) \<noteq> ''TIMESTAMP''
      \<and> foldName (fst kv) \<noteq> ''CPU'' \<and> foldName (fst kv) \<noteq> ''RPS''"
    by simp
  from C10_ingest_validation[where r = "ex_post None" and L = ex_lib and now = 1766925730 and s = ?s]
    m bn
  have r1: "status (fst (handleIngest ex_lib 1766925730 (ex_post None) ?s)) = 400" by blast
  from C10_ingest_validation[where r = ?bad and L = ex_lib and now = 1766925730 and s = ?s
      and kvs = "[(''cpu'', JString ''high'')]" and k = "''cpu''" and v = "JString ''high''"]
    m bb mem fold_cpu
  have r2: "status (fst (handleIngest ex_lib 1766925730 ?bad ?s)) = 400" by blast
  from C10_ingest_validation[where r = "ex_post (Some (JObject []))" and L = ex_lib
      and now = 1766925730 and s = ?s and kvs = "[]" and ?m0.0 = ?z] m be ne
  have d3: "status (fst (handleIngest ex_lib 1766925730 (ex_post (Some (JObject []))) ?s)) =
          (if length (buf (metricsCh ?s)) < cap (metricsCh ?s) then 202 else 503) \<and>
        buf (metricsCh (snd (handleIngest ex_lib 1766925730 (ex_post (Some (JObject []))) ?s))) =
          (if length (buf (metricsCh ?s)) < cap (metricsCh ?s)
           then buf (metricsCh ?s) @
                  [?z\<lparr>Timestamp := (if Timestamp ?z = 0 then 1766925730 else Timestamp ?z)\<rparr>]
           else buf (metricsCh ?s))"
    by blast
  from C10_ingest_validation[where r = "ex_post (Some ex_other_body)" and L = ex_lib
      and now = 1766925730 and s = ?s and kvs = "[(''host'', JString ''a'')]" and ?m0.0 = ?z] m bh nf
  have d4: "buf (metricsCh (snd (handleIngest ex_lib 1766925730 (ex_post (Some ex_other_body)) ?s))) =
          (if length (buf (metricsCh ?s)) < cap (metricsCh ?s)
           then buf (metricsCh ?s) @
                  [?z\<lparr>Timestamp := (if Timestamp ?z = 0 then 1766925730 else Timestamp ?z)\<rparr>]
           else buf (metricsCh ?s))"
    by blast
  from C10_ingest_validation[where r = "ex_post (Some ex_odd_body)" and L = ex_lib
      and now = 1766925730 and s = ?s and lc = "''-5''" and lr = "''1000000000''"
      and x = "Fin (- 5) 0" and y = "Fin 1953125 9" and ?m0.0 = ?o] m bo p1 p2
  have d5: "status (fst (handleIngest ex_lib 1766925730 (ex_post (Some ex_odd_body)) ?s)) =
          (if length (buf (metricsCh ?s)) < cap (metricsCh ?s) then 202 else 503) \<and>
        buf (metricsCh (snd (handleIngest ex_lib 1766925730 (ex_post (Some ex_odd_body)) ?s))) =
          (if length (buf (metricsCh ?s)) < cap (metricsCh ?s)
           then buf (metricsCh ?s) @
                  [?o\<lparr>Timestamp := (if Timestamp ?o = 0 then 1766925730 else Timestamp ?o)\<rparr>]
           else buf (metricsCh ?s))"
    by blast
  from C10_ingest_validation[where r = "ex_post (Some ex_odd_body)" and L = ex_lib
      and now = 1766925730 and s = ex_full and lc = "''-5''" and lr = "''1000000000''"
      and x = "Fin (- 5) 0" and y = "Fin 1953125 9" and ?m0.0 = ?o] m bo p1 p2
  have d6: "status (fst (handleIngest ex_lib 1766925730 (ex_post (Some ex_odd_body)) ex_full)) =
          (if length (buf (metricsCh ex_full)) < cap (metricsCh ex_full) then 202 else 503) \<and>
        buf (metricsCh (snd (handleIngest ex_lib 1766925730 (ex_post (Some ex_odd_body)) ex_full))) =
          (if length (buf (metricsCh ex_full)) < cap (metricsCh ex_full)
           then buf (metricsCh ex_full) @
                  [?o\<lparr>Timestamp := (if Timestamp ?o = 0 then 1766925730 else Timestamp ?o)\<rparr>]
           else buf (metricsCh ex_full))"
    by blast
  have r3: "status (fst (handleIngest ex_lib 1766925730 (ex_post (Some (JObject []))) ?s)) = 202"
    "buf (metricsCh (snd (handleIngest ex_lib 1766925730 (ex_post (Some (JObject []))) ?s)))
      = [\<lparr>Timestamp = 1766925730, CPU = PZero, RPS = PZero\<rparr>]"
    using d3 room by (simp_all add: ex_service_queue)
  have r4: "buf (metricsCh (snd (handleIngest ex_lib 1766925730 (ex_post (Some ex_other_body)) ?s)))
      = [\<lparr>Timestamp = 1766925730, CPU = PZero, RPS = PZero\<rparr>]"
    using d4 room by (simp add: ex_service_queue)
  have r5: "status (fst (handleIngest ex_lib 1766925730 (ex_post (Some ex_odd_body)) ?s)) = 202"
    "buf (metricsCh (snd (handleIngest ex_lib 1766925730 (ex_post (Some ex_odd_body)) ?s)))
      = [\<lparr>Timestamp = 1766925730, CPU = Fin (- 5) 0, RPS = Fin 1953125 9\<rparr>]"
    using d5 room by (simp_all add: ex_service_queue)
  have r6: "status (fst (handleIngest ex_lib 1766925730 (ex_post (Some ex_odd_body)) ex_full)) = 503"
    "buf (metricsCh (snd (handleIngest ex_lib 1766925730 (ex_post (Some ex_odd_body)) ex_full)))
      = buf (metricsCh ex_full)"
    using d6 full by simp_all
  from m[of None] r1 mem fold_cpu r2 r3 r4 p1 p2 r5 r6
  show ?thesis by (intro conjI)
qed

end
